theory Spec2Isabelle
  imports Main
begin

section \<open>profile\_rds: a shallow embedding\<close>

text \<open>
  The script \<^verbatim>\<open>profile_rds.py\<close> (Python 2, boto and MySQLdb) provisions RDS
  instances with different parameter groups, loads and profiles them, prints a report and
  deletes everything again. The embedding threads the list of observable events (calls to
  the cloud API and to the database driver, sleeps, log lines) through every function; the
  answers of the two external systems are parameters of the model (records of functions),
  so that every theorem holds for whatever the cloud and the database reply.
  An exception of the source is a value \<open>Inl e\<close> of the result.
\<close>

subsection \<open>Errors, values, events\<close>

datatype error =
    KeyError string
  | IndexError
  | TypeError
  | ValueError
  | UnboundLocalError
  | MySQLError nat string
  | BotoServerError string

text \<open>A parameter value of a parameter group: the script uses strings and integers.\<close>

datatype pval = PStr string | PInt int

datatype event =
    LogInfo string
  | LogError string
  | LogDebug string
  | Sleep nat
  | Connect string string string string
  | Autocommit
  | OpenCursor
  | Execute string
  | ExecuteFailed string
  | Fetchall
  | CloseCursor
  | CloseDb
  | CreateParameterGroup string string string
  | GetAllDbParameters string "string option"
  | ModifyParameterGroup string string pval
  | CreateDbInstance string string string
  | UpdateInstance
  | GetAllDbInstances "string option"
  | DeleteDbInstance string
  | DeleteParameterGroup string

subsection \<open>Strings: decimal numbers, join, substring test, str.format\<close>

text \<open>\<^verbatim>\<open>"{}".format(n)\<close> for a non-negative integer \<open>n\<close>: its decimal digits.\<close>

definition digit_char :: "nat \<Rightarrow> char" where
  "digit_char d = ''0123456789'' ! d"

function str_nat :: "nat \<Rightarrow> string" where
  "str_nat n = (if n < 10 then [digit_char n] else str_nat (n div 10) @ [digit_char (n mod 10)])"
  by pat_completeness auto
termination
  by (relation "measure (\<lambda>n. n)") auto

declare str_nat.simps [simp del]

text \<open>\<^verbatim>\<open>sep.join(xs)\<close>\<close>

fun join :: "string \<Rightarrow> string list \<Rightarrow> string" where
  "join sep [] = []"
| "join sep [x] = x"
| "join sep (x # y # ys) = x @ sep @ join sep (y # ys)"

text \<open>\<^verbatim>\<open>sub in s\<close> on strings: \<open>sub\<close> occurs in \<open>s\<close> as a contiguous block.\<close>

fun starts_with :: "string \<Rightarrow> string \<Rightarrow> bool" where
  "starts_with [] s = True"
| "starts_with (p # ps) [] = False"
| "starts_with (p # ps) (c # cs) = (p = c \<and> starts_with ps cs)"

fun str_contains :: "string \<Rightarrow> string \<Rightarrow> bool" where
  "str_contains sub [] = (sub = [])"
| "str_contains sub (c # cs) = (starts_with sub (c # cs) \<or> str_contains sub cs)"

text \<open>
  The format specifications of the script are \<^verbatim>\<open>{:20}\<close> (a string padded on the right
  to 20 columns) and \<^verbatim>\<open>{:>10}\<close> (padded on the left); a value longer than the width
  is not cut. The strings of the script are ASCII, so a column is a character.
\<close>

datatype align = AlignLeft | AlignRight

type_synonym fmt_spec = "align \<times> nat"

fun pad :: "fmt_spec \<Rightarrow> string \<Rightarrow> string" where
  "pad (AlignLeft, w) s = s @ replicate (w - length s) (CHR '' '')"
| "pad (AlignRight, w) s = replicate (w - length s) (CHR '' '') @ s"

text \<open>
  \<^verbatim>\<open>" ".join(formats).format(*args)\<close>: the fields take the arguments from the left;
  too few arguments raise IndexError, arguments left over are ignored.
\<close>

fun format_fields :: "fmt_spec list \<Rightarrow> string list \<Rightarrow> error + string list" where
  "format_fields [] args = Inr []"
| "format_fields (f # fs) [] = Inl IndexError"
| "format_fields (f # fs) (a # as) =
     (case format_fields fs as of Inl e \<Rightarrow> Inl e | Inr r \<Rightarrow> Inr (pad f a # r))"

definition str_format :: "fmt_spec list \<Rightarrow> string list \<Rightarrow> error + string" where
  "str_format formats args =
     (case format_fields formats args of Inl e \<Rightarrow> Inl e | Inr r \<Rightarrow> Inr (join '' '' r))"

subsection \<open>The profile categories and their headers\<close>

definition CPU_PROFILE :: string where "CPU_PROFILE = ''CPU''"
definition CONTEXT_PROFILE :: string where "CONTEXT_PROFILE = ''CONTEXT SWITCHES''"
definition BLOCK_PROFILE :: string where "BLOCK_PROFILE = ''BLOCK IO''"
definition IPC_PROFILE :: string where "IPC_PROFILE = ''IPC''"
definition PAGE_PROFILE :: string where "PAGE_PROFILE = ''PAGE FAULTS''"
definition SWAPS_PROFILE :: string where "SWAPS_PROFILE = ''SWAPS''"
definition SOURCE_PROFILE :: string where "SOURCE_PROFILE = ''SOURCE''"

definition ALL_PROFILES :: "string list" where
  "ALL_PROFILES = [CPU_PROFILE, CONTEXT_PROFILE, BLOCK_PROFILE, IPC_PROFILE,
                   PAGE_PROFILE, SWAPS_PROFILE, SOURCE_PROFILE]"

definition PROFILES :: "string list" where
  "PROFILES = ALL_PROFILES"

definition profile_headers_table :: "(string \<times> (string list \<times> fmt_spec list)) list" where
  "profile_headers_table =
    [(''Always'', (['''', ''Status'', ''Duration''], [(AlignLeft, 20), (AlignRight, 10)])),
     (CPU_PROFILE, (['''', ''CPU User'', ''CPU System''], [(AlignRight, 10), (AlignRight, 11)])),
     (CONTEXT_PROFILE,
        ([''Context'', ''voluntary'', ''involuntary''], [(AlignRight, 10), (AlignRight, 12)])),
     (BLOCK_PROFILE, ([''Block'', ''ops in'', ''ops out''], [(AlignRight, 7), (AlignRight, 8)])),
     (IPC_PROFILE, ([''Messages'', ''sent'', ''received''], [(AlignRight, 9), (AlignRight, 9)])),
     (PAGE_PROFILE,
        ([''Page faults'', ''major'', ''minor''], [(AlignRight, 12), (AlignRight, 12)])),
     (SWAPS_PROFILE, (['''', ''Swaps''], [(AlignRight, 6)])),
     (SOURCE_PROFILE, (['''', ''Source function'', ''Source file'', ''Source line''],
                       [(AlignRight, 18), (AlignRight, 15), (AlignRight, 12)]))]"

text \<open>\<^verbatim>\<open>profile_headers[a]\<close>: a key that is not in the dictionary raises KeyError.\<close>

definition profile_headers :: "string \<Rightarrow> error + (string list \<times> fmt_spec list)" where
  "profile_headers a =
     (case map_of profile_headers_table a of None \<Rightarrow> Inl (KeyError a) | Some h \<Rightarrow> Inr h)"

subsection \<open>profile\_report\<close>

text \<open>
  \<^verbatim>\<open>map(lambda a: acc.extend(f(a)), keys)\<close> of Python 2 runs at once, key by key; the
  first key that raises ends it.
\<close>

fun extend_each :: "(string \<Rightarrow> error + 'a list) \<Rightarrow> string list \<Rightarrow> 'a list \<Rightarrow> error + 'a list" where
  "extend_each f [] acc = Inr acc"
| "extend_each f (a # as) acc =
     (case f a of Inl e \<Rightarrow> Inl e | Inr xs \<Rightarrow> extend_each f as (acc @ xs))"

text \<open>\<^verbatim>\<open>profile_headers[a][1]\<close>\<close>

definition header_formats :: "string \<Rightarrow> error + fmt_spec list" where
  "header_formats a = (case profile_headers a of Inl e \<Rightarrow> Inl e | Inr (labels, fmts) \<Rightarrow> Inr fmts)"

text \<open>\<^verbatim>\<open>[profile_headers[a][0][0]] * len(profile_headers[a][1])\<close>\<close>

definition header_group_labels :: "string \<Rightarrow> error + string list" where
  "header_group_labels a =
     (case profile_headers a of
        Inl e \<Rightarrow> Inl e
      | Inr (labels, fmts) \<Rightarrow>
          (case labels of [] \<Rightarrow> Inl IndexError | l # ls \<Rightarrow> Inr (replicate (length fmts) l)))"

text \<open>\<^verbatim>\<open>profile_headers[a][0][1:]\<close>\<close>

definition header_column_labels :: "string \<Rightarrow> error + string list" where
  "header_column_labels a =
     (case profile_headers a of Inl e \<Rightarrow> Inl e | Inr (labels, fmts) \<Rightarrow> Inr (drop 1 labels))"

text \<open>The loop over the rows: every row is turned into text and logged.\<close>

fun report_rows :: "('v \<Rightarrow> string) \<Rightarrow> fmt_spec list \<Rightarrow> 'v list list \<Rightarrow> string list \<Rightarrow> string list \<times> error option" where
  "report_rows str_of formats [] out = (out, None)"
| "report_rows str_of formats (row # rows) out =
     (case str_format formats (map str_of row) of
        Inl e \<Rightarrow> (out, Some e)
      | Inr line \<Rightarrow> report_rows str_of formats rows (out @ [line]))"

text \<open>
  The result is the list of lines logged at level INFO and the exception that ended the
  function, if any. \<open>str_of\<close> is Python's \<^verbatim>\<open>str\<close> on the values of a row.
\<close>

definition profile_report :: "('v \<Rightarrow> string) \<Rightarrow> string \<Rightarrow> 'v list list \<Rightarrow> string list \<Rightarrow> string list \<times> error option" where
  "profile_report str_of sql rows categories =
    (let out0 = [[CHR 0x0A] @ ''SQL: '' @ sql, replicate 20 (CHR ''-'')];
         header_keys = [''Always''] @ categories
     in case extend_each header_formats header_keys [] of
          Inl e \<Rightarrow> (out0, Some e)
        | Inr formats \<Rightarrow>
       (case extend_each header_group_labels header_keys [] of
          Inl e \<Rightarrow> (out0, Some e)
        | Inr headers \<Rightarrow>
       (case str_format formats headers of
          Inl e \<Rightarrow> (out0, Some e)
        | Inr line1 \<Rightarrow>
       (case extend_each header_formats header_keys [] of
          Inl e \<Rightarrow> (out0 @ [line1], Some e)
        | Inr formats2 \<Rightarrow>
       (case extend_each header_column_labels header_keys [] of
          Inl e \<Rightarrow> (out0 @ [line1], Some e)
        | Inr headers2 \<Rightarrow>
       (case str_format formats2 headers2 of
          Inl e \<Rightarrow> (out0 @ [line1], Some e)
        | Inr line2 \<Rightarrow> report_rows str_of formats2 rows (out0 @ [line1, line2])))))))"

subsection \<open>The workload\<close>

definition DEFAULT_DATABASE :: string where "DEFAULT_DATABASE = ''testdata''"
definition DEFAULT_USER :: string where "DEFAULT_USER = ''testuser''"
definition DEFAULT_PASSWD :: string where "DEFAULT_PASSWD = ''testpass''"
definition DEFAULT_HOST :: string where "DEFAULT_HOST = ''localhost''"

definition label :: string where "label = ''testing''"
definition inst_class :: string where "inst_class = ''db.t1.micro''"

definition test_sql :: "string list" where
  "test_sql = [''set profiling=1'', ''select 1=1'']"


subsection \<open>The database driver\<close>

text \<open>
  What MySQLdb and the server answer is a parameter: whether a connection attempt or a
  statement raises (given everything that happened before), which rows a fetch returns,
  and how Python renders a value of a row (\<^verbatim>\<open>str(x)\<close>, and the \<^verbatim>\<open>.8f\<close> format of
  the duration, abstracted here because it is floating-point formatting).
  A worker holds at most one connection and one cursor, so handles carry no identity.
  Creating and closing a cursor or a connection object do not raise.
\<close>

record 'v db_env =
  connect_fault :: "event list \<Rightarrow> string \<Rightarrow> error option"
  execute_fault :: "event list \<Rightarrow> string \<Rightarrow> error option"
  fetchall_rows :: "event list \<Rightarrow> 'v list list"
  value_str :: "'v \<Rightarrow> string"
  format_f8 :: "'v \<Rightarrow> error + string"
  db_errno :: "event list \<Rightarrow> string"
  db_error :: "event list \<Rightarrow> string"

type_synonym 'a result = "event list \<times> (error + 'a)"

text \<open>\<^verbatim>\<open>connect\<close>: the arguments are database, user, password and host.\<close>

definition connect :: "'v db_env \<Rightarrow> event list \<Rightarrow> string \<Rightarrow> string \<Rightarrow> string \<Rightarrow> string \<Rightarrow> unit result" where
  "connect env tr database username pwd hostname =
     (case connect_fault env tr hostname of
        Some e \<Rightarrow> (tr, Inl e)
      | None \<Rightarrow> (tr @ [Connect hostname username pwd database, Autocommit], Inr ()))"

text \<open>\<^verbatim>\<open>c.execute(s, None)\<close>\<close>

definition execute :: "'v db_env \<Rightarrow> event list \<Rightarrow> string \<Rightarrow> unit result" where
  "execute env tr s =
     (case execute_fault env tr s of
        Some e \<Rightarrow> (tr @ [ExecuteFailed s], Inl e)
      | None \<Rightarrow> (tr @ [Execute s], Inr ()))"

text \<open>\<^verbatim>\<open>for s in sql: c.execute(s, None)\<close>\<close>

fun execute_each :: "'v db_env \<Rightarrow> event list \<Rightarrow> string list \<Rightarrow> unit result" where
  "execute_each env tr [] = (tr, Inr ())"
| "execute_each env tr (s # ss) =
     (case execute env tr s of
        (tr1, Inl e) \<Rightarrow> (tr1, Inl e)
      | (tr1, Inr u) \<Rightarrow> execute_each env tr1 ss)"

subsection \<open>perform\_test\<close>

text \<open>\<^verbatim>\<open>"{:>10}  {:>12.8f}  {}".format(row[0], row[1], row[2])\<close>\<close>

definition summary_line :: "'v db_env \<Rightarrow> 'v list \<Rightarrow> error + string" where
  "summary_line env row =
     (case row of
        r0 # r1 # r2 # rest \<Rightarrow>
          (case format_f8 env r1 of
             Inl e \<Rightarrow> Inl e
           | Inr d \<Rightarrow> Inr (pad (AlignRight, 10) (value_str env r0) @ ''  '' @
                         pad (AlignRight, 12) d @ ''  '' @ value_str env r2))
      | _ \<Rightarrow> Inl IndexError)"

fun log_summary_rows :: "'v db_env \<Rightarrow> event list \<Rightarrow> 'v list list \<Rightarrow> unit result" where
  "log_summary_rows env tr [] = (tr, Inr ())"
| "log_summary_rows env tr (row # rows) =
     (case summary_line env row of
        Inl e \<Rightarrow> (tr, Inl e)
      | Inr line \<Rightarrow> log_summary_rows env (tr @ [LogInfo line]) rows)"

text \<open>\<^verbatim>\<open>"show profile {} for query {}".format(profile_list, i)\<close>\<close>

definition show_profile :: "string list \<Rightarrow> nat \<Rightarrow> string" where
  "show_profile profiles i =
     ''show profile '' @ join '','' profiles @ '' for query '' @ str_nat i"

text \<open>
  \<^verbatim>\<open>for i, s in enumerate(sql)\<close>, with \<open>i\<close> the index of the head of the list that
  is left.
\<close>

fun profile_queries :: "'v db_env \<Rightarrow> event list \<Rightarrow> string list \<Rightarrow> nat \<Rightarrow> string list \<Rightarrow> unit result" where
  "profile_queries env tr profiles i [] = (tr, Inr ())"
| "profile_queries env tr profiles i (s # ss) =
     (if i = 0 then profile_queries env tr profiles (Suc i) ss
      else
        (case execute env tr (show_profile profiles i) of
           (tr1, Inl e) \<Rightarrow> (tr1, Inl e)
         | (tr1, Inr u) \<Rightarrow>
             (case profile_report (value_str env) s (fetchall_rows env tr1) profiles of
                (lines, Some e) \<Rightarrow> (tr1 @ [Fetchall] @ map LogInfo lines, Inl e)
              | (lines, None) \<Rightarrow>
                  profile_queries env (tr1 @ [Fetchall] @ map LogInfo lines) profiles (Suc i) ss)))"

text \<open>
  \<^verbatim>\<open>rows = c.fetchall()\<close> after \<^verbatim>\<open>show profiles\<close> and the three lines logged before the
  rows of the summary.
\<close>

definition summary_header :: "string \<Rightarrow> event list" where
  "summary_header db_name =
     [Fetchall,
      LogInfo (''Database '' @ db_name @ '' Profiling data'' @ [CHR 0x0A]),
      LogInfo (pad (AlignRight, 10) ''Query ID'' @ ''  '' @
               pad (AlignRight, 12) ''Duration'' @ ''  '' @ ''Query''),
      LogInfo (replicate 31 (CHR ''-''))]"

text \<open>The body of the \<^verbatim>\<open>try\<close> block of \<^verbatim>\<open>perform_test\<close>.\<close>

definition perform_test_body :: "'v db_env \<Rightarrow> string list \<Rightarrow> event list \<Rightarrow> string list \<Rightarrow> string \<Rightarrow> unit result" where
  "perform_test_body env sql tr profiles db_name =
     (case execute_each env tr sql of
        (tr1, Inl e) \<Rightarrow> (tr1, Inl e)
      | (tr1, Inr u) \<Rightarrow>
     (case execute env tr1 ''show profiles'' of
        (tr2, Inl e) \<Rightarrow> (tr2, Inl e)
      | (tr2, Inr u) \<Rightarrow>
     (case log_summary_rows env (tr2 @ summary_header db_name) (fetchall_rows env tr2) of
        (tr3, Inl e) \<Rightarrow> (tr3, Inl e)
      | (tr3, Inr u) \<Rightarrow>
     (case profile_queries env tr3 profiles 0 sql of
        (tr4, Inl e) \<Rightarrow> (tr4, Inl e)
      | (tr4, Inr u) \<Rightarrow> execute env tr4 ''set profiling=0''))))"

text \<open>
  \<^verbatim>\<open>perform_test\<close> with the statements to profile as a parameter (the script asks its
  user to edit \<^verbatim>\<open>test_sql\<close>): the cursor is opened, the body runs, \<^verbatim>\<open>except: raise\<close>
  hands every exception on, and \<^verbatim>\<open>finally\<close> closes the cursor.
\<close>

definition perform_test_sql :: "'v db_env \<Rightarrow> string list \<Rightarrow> event list \<Rightarrow> string list \<Rightarrow> string \<Rightarrow> unit result" where
  "perform_test_sql env sql tr profiles db_name =
     (case perform_test_body env sql (tr @ [OpenCursor]) profiles db_name of
        (tr1, r) \<Rightarrow> (tr1 @ [CloseCursor], r))"

definition perform_test :: "'v db_env \<Rightarrow> event list \<Rightarrow> string list \<Rightarrow> string \<Rightarrow> unit result" where
  "perform_test env tr profiles db_name = perform_test_sql env test_sql tr profiles db_name"

subsection \<open>The cloud API\<close>

text \<open>
  A database instance as boto shows it: its id, its status and, once it has one, its
  endpoint (host and port).
\<close>

record dbinstance =
  inst_id :: string
  status :: string
  endpoint :: "(string \<times> nat) option"

text \<open>
  What the RDS service answers is a parameter as well: whether a call raises (given the
  events so far and the call), the pages of a parameter group's catalog (for a group name
  and a marker: the names of the parameters on that page and the page's own \<^verbatim>\<open>Marker\<close>),
  the instance as the \<open>k\<close>-th \<^verbatim>\<open>inst.update()\<close> shows it (or the exception it raises), the
  list of all instances at the \<open>k\<close>-th round of \<^verbatim>\<open>cleanup\<close>, and the instances found
  under an id. A call is written to the events when it is issued. The group that
  \<^verbatim>\<open>create_parameter_group\<close> returns carries the name that was asked for.
  \<^verbatim>\<open>boto.connect_rds()\<close> only builds a client object.
\<close>

record rds_env =
  rds_fault :: "event list \<Rightarrow> event \<Rightarrow> error option"
  parameters_page :: "string \<Rightarrow> string option \<Rightarrow> string list \<times> string option"
  refresh :: "nat \<Rightarrow> error + dbinstance"
  listing :: "nat \<Rightarrow> dbinstance list"
  describe :: "string \<Rightarrow> dbinstance list"

definition rds_call :: "rds_env \<Rightarrow> event list \<Rightarrow> event \<Rightarrow> unit result" where
  "rds_call env tr c =
     (case rds_fault env tr c of
        Some e \<Rightarrow> (tr @ [c], Inl e)
      | None \<Rightarrow> (tr @ [c], Inr ()))"

subsection \<open>add\_utf8\_support and create\_param\_groups\<close>

definition utf8params :: "(string \<times> pval) list" where
  "utf8params = [(''character_set_server'', PStr ''utf8''),
                 (''character_set_client'', PStr ''utf8''),
                 (''character_set_connection'', PStr ''utf8''),
                 (''character_set_database'', PStr ''utf8''),
                 (''character_set_results'', PStr ''utf8''),
                 (''collation_server'', PStr ''utf8_general_ci''),
                 (''collation_connection'', PStr ''utf8_general_ci'')]"

text \<open>\<^verbatim>\<open>param_set.extend(utf8params)\<close>: the list after the call.\<close>

definition add_utf8_support :: "(string \<times> pval) list \<Rightarrow> (string \<times> pval) list" where
  "add_utf8_support param_set = param_set @ utf8params"

text \<open>
  The inner function \<^verbatim>\<open>set_param\<close>; \<open>pg_name\<close> is the variable of the enclosing loop.
  Setting \<^verbatim>\<open>.value\<close> and calling \<^verbatim>\<open>.apply()\<close> are the one event ModifyParameterGroup.
  \<^verbatim>\<open>pg2[param]\<close> raises KeyError when the second page has no such parameter.
\<close>

definition set_param :: "rds_env \<Rightarrow> event list \<Rightarrow> string \<Rightarrow> string \<Rightarrow> pval \<Rightarrow> unit result" where
  "set_param env tr pg_name param val =
     (case rds_call env tr (GetAllDbParameters pg_name None) of
        (tr1, Inl e) \<Rightarrow> (tr1, Inl e)
      | (tr1, Inr u) \<Rightarrow>
          (case parameters_page env pg_name None of
             (pg, marker) \<Rightarrow>
               if param \<in> set pg then rds_call env tr1 (ModifyParameterGroup pg_name param val)
               else
                 (case rds_call env tr1 (GetAllDbParameters pg_name marker) of
                    (tr2, Inl e) \<Rightarrow> (tr2, Inl e)
                  | (tr2, Inr u) \<Rightarrow>
                      (case parameters_page env pg_name marker of
                         (pg2, marker2) \<Rightarrow>
                           if param \<in> set pg2
                           then rds_call env tr2 (ModifyParameterGroup pg_name param val)
                           else (tr2, Inl (KeyError param))))))"

text \<open>\<^verbatim>\<open>for pval in param_set: set_param(*pval)\<close>\<close>

fun set_params :: "rds_env \<Rightarrow> event list \<Rightarrow> string \<Rightarrow> (string \<times> pval) list \<Rightarrow> unit result" where
  "set_params env tr pg_name [] = (tr, Inr ())"
| "set_params env tr pg_name (pval # rest) =
     (case set_param env tr pg_name (fst pval) (snd pval) of
        (tr1, Inl e) \<Rightarrow> (tr1, Inl e)
      | (tr1, Inr u) \<Rightarrow> set_params env tr1 pg_name rest)"

text \<open>
  An element of \<^verbatim>\<open>params_to_vary\<close> is a list of pairs, or (the \<^verbatim>\<open>else\<close> branch of
  \<^verbatim>\<open>isinstance(param_set, list)\<close>) one pair.
\<close>

datatype param_set = PList "(string \<times> pval) list" | PTuple string pval

definition pg_name_of :: "string \<Rightarrow> nat \<Rightarrow> string" where
  "pg_name_of name_prefix index = ''pg'' @ name_prefix @ ''-'' @ str_nat index"

text \<open>\<^verbatim>\<open>'{} {}'.format(name_prefix, index)\<close>\<close>

definition pg_description :: "string \<Rightarrow> nat \<Rightarrow> string" where
  "pg_description name_prefix index = name_prefix @ '' '' @ str_nat index"

text \<open>
  The loop \<^verbatim>\<open>for index, param_set in enumerate(params_to_vary)\<close>, with \<open>index\<close> the index
  of the head of the list that is left.
\<close>

fun create_groups :: "rds_env \<Rightarrow> event list \<Rightarrow> string \<Rightarrow> string \<Rightarrow> nat \<Rightarrow> param_set list \<Rightarrow> string list \<Rightarrow> string list result" where
  "create_groups env tr name_prefix engine index [] retVal = (tr, Inr retVal)"
| "create_groups env tr name_prefix engine index (param_set # rest) retVal =
     (case rds_call env tr (CreateParameterGroup (pg_name_of name_prefix index) engine
                              (pg_description name_prefix index)) of
        (tr1, Inl e) \<Rightarrow> (tr1, Inl e)
      | (tr1, Inr u) \<Rightarrow>
          (case (case param_set of
                   PList pvals \<Rightarrow> set_params env tr1 (pg_name_of name_prefix index) pvals
                 | PTuple param val \<Rightarrow> set_param env tr1 (pg_name_of name_prefix index) param val) of
             (tr2, Inl e) \<Rightarrow> (tr2, Inl e)
           | (tr2, Inr u) \<Rightarrow>
               create_groups env tr2 name_prefix engine (Suc index) rest
                 (retVal @ [pg_name_of name_prefix index])))"

definition create_param_groups :: "rds_env \<Rightarrow> event list \<Rightarrow> string \<Rightarrow> param_set list \<Rightarrow> string \<Rightarrow> string list result" where
  "create_param_groups env tr name_prefix params_to_vary engine =
     create_groups env tr name_prefix engine 0 params_to_vary []"

text \<open>
  The first lines of the main program: every parameter list gets the UTF-8 settings, then
  the groups are created with the default engine.
\<close>

definition main_parameters :: "(string \<times> pval) list list" where
  "main_parameters =
     [[],
      [(''innodb_buffer_pool_size'', PInt (100 * 1024 * 1024)),
       (''max_heap_table_size'', PInt (100 * 1024 * 1024)),
       (''tmp_table_size'', PInt (100 * 1024 * 1024))]]"

definition main_param_groups :: "rds_env \<Rightarrow> event list \<Rightarrow> string \<Rightarrow> (string \<times> pval) list list \<Rightarrow> string list result" where
  "main_param_groups env tr name_prefix parameters =
     create_param_groups env tr name_prefix
       (map (\<lambda>pg. PList (add_utf8_support pg)) parameters) ''MySQL5.5''"

subsection \<open>create\_db\<close>

text \<open>\<^verbatim>\<open>'{}-{}-{}'.format(label, number, param_grp)\<close>\<close>

definition instance_name :: "string \<Rightarrow> nat \<Rightarrow> string \<Rightarrow> string" where
  "instance_name lbl number param_grp = lbl @ ''-'' @ str_nat number @ ''-'' @ param_grp"

text \<open>
  \<^verbatim>\<open>while inst.status != 'available': time.sleep(30); inst.update()\<close>. The loop has no
  bound, so the function is partial: the value \<open>None\<close> is a wait that never ends.
  \<open>k\<close> counts the updates made so far.
\<close>

partial_function (option) wait_available :: "rds_env \<Rightarrow> nat \<Rightarrow> event list \<Rightarrow> dbinstance \<Rightarrow> (dbinstance result) option" where
  "wait_available env k tr inst =
     (if status inst \<noteq> ''available'' then
        (case refresh env k of
           Inl e \<Rightarrow> Some (tr @ [Sleep 30, UpdateInstance], Inl e)
         | Inr inst1 \<Rightarrow> wait_available env (Suc k) (tr @ [Sleep 30, UpdateInstance]) inst1)
      else Some (tr, Inr inst))"

text \<open>
  The part of \<^verbatim>\<open>create_db\<close> after the wait: connect as root (to no database), create
  the database and the user; an exception in the \<^verbatim>\<open>try\<close> block is logged and dropped,
  \<^verbatim>\<open>finally\<close> closes the cursor and the connection, and the instance is returned.
  \<^verbatim>\<open>inst.endpoint[0]\<close> raises TypeError when the instance has no endpoint.
\<close>

definition bootstrap_sql :: "string list" where
  "bootstrap_sql =
     [''CREATE DATABASE '' @ DEFAULT_DATABASE,
      ''grant all on '' @ DEFAULT_DATABASE @ ''.* to '' @ DEFAULT_USER @
      ''@'' @ [CHR 0x27] @ ''%'' @ [CHR 0x27] @ '' identified by '' @
      [CHR 0x27] @ DEFAULT_PASSWD @ [CHR 0x27]]"

definition bootstrap :: "'v db_env \<Rightarrow> event list \<Rightarrow> string \<Rightarrow> dbinstance \<Rightarrow> dbinstance result" where
  "bootstrap denv tr ident inst =
     (case endpoint inst of
        None \<Rightarrow> (tr, Inl TypeError)
      | Some (host, port) \<Rightarrow>
          (case connect denv tr [] ''root'' ''changeME'' host of
             (tr1, Inl e) \<Rightarrow> (tr1, Inl e)
           | (tr1, Inr u) \<Rightarrow>
               (case execute_each denv (tr1 @ [OpenCursor]) bootstrap_sql of
                  (tr2, Inl e) \<Rightarrow>
                    (tr2 @ [LogError (''setting up '' @ ident @ '', error '' @ db_errno denv tr2 @
                                      '' '' @ db_error denv tr2 @ [CHR 0x0A]),
                            CloseCursor, CloseDb], Inr inst)
                | (tr2, Inr u) \<Rightarrow> (tr2 @ [CloseCursor, CloseDb], Inr inst))))"

text \<open>
  \<^verbatim>\<open>create_db\<close>: the instance is created with the id, class and parameter group given
  (10 GB, user root, engine 5.5, no backups, the default security group); then the wait,
  then the bootstrap.
\<close>

definition creating_message :: "string \<Rightarrow> string \<Rightarrow> string \<Rightarrow> string" where
  "creating_message lbl cls param_grp =
     ''Creating RDS instance with default database: '' @ lbl @ '' '' @ cls @ '' '' @
     param_grp @ [CHR 0x0A]"

definition create_db :: "rds_env \<Rightarrow> 'v db_env \<Rightarrow> event list \<Rightarrow> nat \<Rightarrow> string \<Rightarrow> string \<Rightarrow> string \<Rightarrow> (dbinstance result) option" where
  "create_db renv denv tr number lbl cls param_grp =
     (case rds_call renv (tr @ [LogInfo (creating_message lbl cls param_grp)])
             (CreateDbInstance (instance_name lbl number param_grp) cls param_grp) of
        (tr1, Inl e) \<Rightarrow> Some (tr1, Inl e)
      | (tr1, Inr u) \<Rightarrow>
          (case refresh renv 0 of
             Inl e \<Rightarrow> Some (tr1 @ [Sleep 30, UpdateInstance], Inl e)
           | Inr inst0 \<Rightarrow>
               (case wait_available renv 1 (tr1 @ [Sleep 30, UpdateInstance]) inst0 of
                  None \<Rightarrow> None
                | Some (tr2, Inl e) \<Rightarrow> Some (tr2, Inl e)
                | Some (tr2, Inr inst) \<Rightarrow>
                    Some (bootstrap denv tr2 (instance_name lbl number param_grp) inst))))"

subsection \<open>load\_db and perform\_rds\_test\<close>




subsection \<open>cleanup\<close>

definition deletable_statuses :: "string list" where
  "deletable_statuses = [''available'', ''failed'', ''storage-full'',
                         ''incompatible-option-group'', ''incompatible-parameters'',
                         ''incompatible-restore'', ''incompatible-network'']"

text \<open>\<^verbatim>\<open>for inst in label_rs: if inst.status in [...]: log; rds.delete_dbinstance(...)\<close>\<close>

fun delete_instances :: "rds_env \<Rightarrow> event list \<Rightarrow> dbinstance list \<Rightarrow> unit result" where
  "delete_instances env tr [] = (tr, Inr ())"
| "delete_instances env tr (inst # rest) =
     (if status inst \<in> set deletable_statuses then
        (case rds_call env (tr @ [LogInfo (''Deleting RDS instance '' @ inst_id inst)])
                (DeleteDbInstance (inst_id inst)) of
           (tr1, Inl e) \<Rightarrow> (tr1, Inl e)
         | (tr1, Inr u) \<Rightarrow> delete_instances env tr1 rest)
      else delete_instances env tr rest)"

text \<open>\<^verbatim>\<open>[d for d in rs if label in d.id]\<close>\<close>

definition label_matching :: "string \<Rightarrow> dbinstance list \<Rightarrow> dbinstance list" where
  "label_matching lbl rs = filter (\<lambda>d. str_contains lbl (inst_id d)) rs"

text \<open>
  The \<^verbatim>\<open>while\<close> loop of \<^verbatim>\<open>cleanup\<close>. Its variables are \<open>loop\<close>, the truth value of
  \<^verbatim>\<open>label_rs\<close> (\<open>True\<close> before the first round, then whether the list is non-empty) and
  \<open>rs\<close>, which the first round binds (the first round always runs). The result is
  \<open>loop\<close> and \<open>rs\<close> when the loop ends.
\<close>

function cleanup_loop :: "rds_env \<Rightarrow> string \<Rightarrow> nat \<Rightarrow> bool \<Rightarrow> dbinstance list \<Rightarrow> event list \<Rightarrow> (nat \<times> dbinstance list) result" where
  "cleanup_loop env lbl loop label_rs rs tr =
     (if loop < 10 \<and> label_rs then
        (case rds_call env tr (GetAllDbInstances None) of
           (tr1, Inl e) \<Rightarrow> (tr1, Inl e)
         | (tr1, Inr u) \<Rightarrow>
             (case delete_instances env tr1 (label_matching lbl (listing env loop)) of
                (tr2, Inl e) \<Rightarrow> (tr2, Inl e)
              | (tr2, Inr u) \<Rightarrow>
                  cleanup_loop env lbl (Suc loop)
                    (label_matching lbl (listing env loop) \<noteq> [])
                    (listing env loop)
                    (if label_matching lbl (listing env loop) \<noteq> [] then tr2 @ [Sleep 60]
                     else tr2)))
      else (tr, Inr (loop, rs)))"
  by pat_completeness auto
termination
  by (relation "measure (\<lambda>(env, lbl, loop, label_rs, rs, tr). 10 - loop)") auto

declare cleanup_loop.simps [simp del]

text \<open>\<^verbatim>\<open>for pg in pgroups: rds.delete_parameter_group(pg)\<close>\<close>

fun delete_parameter_groups :: "rds_env \<Rightarrow> event list \<Rightarrow> string list \<Rightarrow> unit result" where
  "delete_parameter_groups env tr [] = (tr, Inr ())"
| "delete_parameter_groups env tr (pg # pgs) =
     (case rds_call env tr (DeleteParameterGroup pg) of
        (tr1, Inl e) \<Rightarrow> (tr1, Inl e)
      | (tr1, Inr u) \<Rightarrow> delete_parameter_groups env tr1 pgs)"

definition cleanup :: "rds_env \<Rightarrow> event list \<Rightarrow> string \<Rightarrow> string list \<Rightarrow> unit result" where
  "cleanup env tr lbl pgroups =
     (case cleanup_loop env lbl 0 True [] tr of
        (tr1, Inl e) \<Rightarrow> (tr1, Inl e)
      | (tr1, Inr (loop, rs)) \<Rightarrow>
          if loop = 10 \<and> rs \<noteq> []
          then (tr1 @ [LogError ''Problem deleting RDS instances: timed out''], Inr ())
          else delete_parameter_groups env tr1 pgroups)"

subsection \<open>Notions used to state the properties\<close>

text \<open>
  The formats and labels that the header dictionary gives for a list of keys, in the order
  of the list (a key that is not in the dictionary gives none).
\<close>

definition or_empty :: "error + 'a list \<Rightarrow> 'a list" where
  "or_empty r = (case r of Inl e \<Rightarrow> [] | Inr xs \<Rightarrow> xs)"

definition report_formats :: "string list \<Rightarrow> fmt_spec list" where
  "report_formats keys = concat (map (\<lambda>a. or_empty (header_formats a)) keys)"

definition report_group_labels :: "string list \<Rightarrow> string list" where
  "report_group_labels keys = concat (map (\<lambda>a. or_empty (header_group_labels a)) keys)"

definition report_column_labels :: "string list \<Rightarrow> string list" where
  "report_column_labels keys = concat (map (\<lambda>a. or_empty (header_column_labels a)) keys)"


text \<open>The names of the parameter groups whose creation was asked for, in order.\<close>

fun created_group :: "event \<Rightarrow> string list" where
  "created_group (CreateParameterGroup g engine description) = [g]"
| "created_group e = []"

definition created_groups :: "event list \<Rightarrow> string list" where
  "created_groups tr = concat (map created_group tr)"

text \<open>The parameter values applied to the group \<open>g\<close>, in order.\<close>

fun applied_value :: "string \<Rightarrow> event \<Rightarrow> (string \<times> pval) list" where
  "applied_value g (ModifyParameterGroup g1 param val) = (if g1 = g then [(param, val)] else [])"
| "applied_value g e = []"

definition applied_to :: "string \<Rightarrow> event list \<Rightarrow> (string \<times> pval) list" where
  "applied_to g tr = concat (map (applied_value g) tr)"

text \<open>The fetches of a parameter catalog: group and marker, in order.\<close>

fun fetched_page :: "event \<Rightarrow> (string \<times> string option) list" where
  "fetched_page (GetAllDbParameters g marker) = [(g, marker)]"
| "fetched_page e = []"

definition fetched_pages :: "event list \<Rightarrow> (string \<times> string option) list" where
  "fetched_pages tr = concat (map fetched_page tr)"

text \<open>The pairs of a parameter set.\<close>

fun spec_pairs :: "param_set \<Rightarrow> (string \<times> pval) list" where
  "spec_pairs (PList pvals) = pvals"
| "spec_pairs (PTuple param val) = [(param, val)]"

text \<open>The value of a decimal digit, and of a string of digits.\<close>

definition digit_val :: "char \<Rightarrow> nat" where
  "digit_val c = (if c = CHR ''1'' then 1 else if c = CHR ''2'' then 2 else if c = CHR ''3'' then 3
     else if c = CHR ''4'' then 4 else if c = CHR ''5'' then 5 else if c = CHR ''6'' then 6
     else if c = CHR ''7'' then 7 else if c = CHR ''8'' then 8 else if c = CHR ''9'' then 9
     else 0)"

definition nat_of_digits :: "string \<Rightarrow> nat" where
  "nat_of_digits s = foldl (\<lambda>a c. 10 * a + digit_val c) 0 s"

text \<open>
  An RDS service for the examples: no call fails, the catalog has two pages, the instance
  is available at the third update, and the instances of the run are gone at the third
  listing.
\<close>

definition example_instance :: "string \<Rightarrow> dbinstance" where
  "example_instance st =
     \<lparr>inst_id = ''testing-0-pgtesting-0'', status = st,
      endpoint = (if st = ''available'' then Some (''db0.example.com'', 3306) else None)\<rparr>"

definition example_rds :: rds_env where
  "example_rds =
     \<lparr>rds_fault = (\<lambda>tr c. None),
      parameters_page = (\<lambda>g marker. case marker of
          None \<Rightarrow> ([''character_set_client'', ''character_set_connection'',
                     ''character_set_database'', ''character_set_results'',
                     ''character_set_server''], Some ''page2'')
        | Some m \<Rightarrow> ([''collation_connection'', ''collation_server'',
                       ''innodb_buffer_pool_size'', ''max_heap_table_size'',
                       ''tmp_table_size''], None)),
      refresh = (\<lambda>k. Inr (example_instance (if k < 2 then ''creating'' else ''available''))),
      listing = (\<lambda>k. if k < 2 then [example_instance ''deleting''] else []),
      describe = (\<lambda>i. [example_instance ''available''])\<rparr>"

text \<open>The number of listings of all instances (the rounds of \<^verbatim>\<open>cleanup\<close>), and the sleeps.\<close>

definition rounds :: "event list \<Rightarrow> nat" where
  "rounds tr = length (filter (\<lambda>e. e = GetAllDbInstances None) tr)"

fun sleep_of :: "event \<Rightarrow> nat list" where
  "sleep_of (Sleep n) = [n]"
| "sleep_of e = []"

definition sleeps :: "event list \<Rightarrow> nat list" where
  "sleeps tr = concat (map sleep_of tr)"

text \<open>The parameter groups whose deletion was asked for.\<close>

fun deleted_group :: "event \<Rightarrow> string list" where
  "deleted_group (DeleteParameterGroup g) = [g]"
| "deleted_group e = []"

definition deleted_groups :: "event list \<Rightarrow> string list" where
  "deleted_groups tr = concat (map deleted_group tr)"

text \<open>
  An RDS service where the instance of the run stays in the status \<open>deleting\<close> for
  nine rounds and is gone at the tenth, while an instance of somebody else is there all the
  time.
\<close>

definition foreign_instance :: dbinstance where
  "foreign_instance =
     \<lparr>inst_id = ''production-db'', status = ''available'',
      endpoint = Some (''prod.example.com'', 3306)\<rparr>"

definition crowded_rds :: rds_env where
  "crowded_rds = example_rds
     \<lparr>listing := (\<lambda>k. if k < 9 then [example_instance ''deleting'', foreign_instance]
                         else [foreign_instance])\<rparr>"

text \<open>
  The statements sent to the server (whether they failed or not), those that were
  executed, and the value of the session variable \<open>profiling\<close> that they leave.
\<close>

fun issued_statement :: "event \<Rightarrow> string list" where
  "issued_statement (Execute s) = [s]"
| "issued_statement (ExecuteFailed s) = [s]"
| "issued_statement e = []"

definition issued :: "event list \<Rightarrow> string list" where
  "issued tr = concat (map issued_statement tr)"

fun executed_statement :: "event \<Rightarrow> string list" where
  "executed_statement (Execute s) = [s]"
| "executed_statement e = []"

definition executed :: "event list \<Rightarrow> string list" where
  "executed tr = concat (map executed_statement tr)"

definition profiling_step :: "bool \<Rightarrow> string \<Rightarrow> bool" where
  "profiling_step p s =
     (if s = ''set profiling=1'' then True else if s = ''set profiling=0'' then False else p)"

definition profiling_enabled :: "event list \<Rightarrow> bool" where
  "profiling_enabled tr = foldl profiling_step False (executed tr)"

text \<open>
  A database for the examples: values are their own text, no call fails, a fetch returns
  no rows; and one where the statement \<open>select 1=1\<close> fails.
\<close>

definition example_db :: "string db_env" where
  "example_db =
     \<lparr>connect_fault = (\<lambda>tr host. None),
      execute_fault = (\<lambda>tr s. None),
      fetchall_rows = (\<lambda>tr. []),
      value_str = (\<lambda>v. v),
      format_f8 = (\<lambda>v. Inr v),
      db_errno = (\<lambda>tr. ''0''),
      db_error = (\<lambda>tr. [])\<rparr>"

definition failing_db :: "string db_env" where
  "failing_db = example_db
     \<lparr>execute_fault := (\<lambda>tr s. if s = ''select 1=1'' then Some (MySQLError 1064 ''syntax'')
                               else None),
      db_errno := (\<lambda>tr. ''1064''),
      db_error := (\<lambda>tr. ''syntax'')\<rparr>"

text \<open>\<open>n\<close> times: a sleep of 30 seconds, then an update of the instance.\<close>

definition polls :: "nat \<Rightarrow> event list" where
  "polls n = concat (replicate n [Sleep 30, UpdateInstance])"

text \<open>An RDS service whose instance never becomes available.\<close>

definition stuck_rds :: rds_env where
  "stuck_rds = example_rds \<lparr>refresh := (\<lambda>k. Inr (example_instance ''creating''))\<rparr>"

text \<open>
  The events of \<^verbatim>\<open>create_db(0, 'testing', 'db.t1.micro', 'pgtesting-0')\<close> when the third
  refresh shows the instance available and the database accepts every statement.
\<close>

definition example_create_db_trace :: "event list" where
  "example_create_db_trace =
     [LogInfo (creating_message ''testing'' ''db.t1.micro'' ''pgtesting-0''),
      CreateDbInstance ''testing-0-pgtesting-0'' ''db.t1.micro'' ''pgtesting-0'',
      Sleep 30, UpdateInstance, Sleep 30, UpdateInstance, Sleep 30, UpdateInstance,
      Connect ''db0.example.com'' ''root'' ''changeME'' [], Autocommit, OpenCursor,
      Execute ''CREATE DATABASE testdata'',
      Execute (''grant all on testdata.* to testuser@'' @ [CHR 0x27] @ ''%'' @ [CHR 0x27] @
               '' identified by '' @ [CHR 0x27] @ ''testpass'' @ [CHR 0x27]),
      CloseCursor, CloseDb]"

text \<open>An RDS service that refuses every change of a parameter.\<close>

definition refusing_rds :: rds_env where
  "refusing_rds = example_rds
     \<lparr>rds_fault := (\<lambda>tr c. case c of
          ModifyParameterGroup g p v \<Rightarrow> Some (BotoServerError ''InvalidParameterValue'')
        | _ \<Rightarrow> None)\<rparr>"




section \<open>Properties\<close>

subsection \<open>The report: order of the categories\<close>

lemmas profile_names = CPU_PROFILE_def CONTEXT_PROFILE_def BLOCK_PROFILE_def IPC_PROFILE_def
  PAGE_PROFILE_def SWAPS_PROFILE_def SOURCE_PROFILE_def

lemma replicate_numeral: "replicate (numeral k) x = x # replicate (pred_numeral k) x"
  by (simp add: numeral_eq_Suc)

lemma extend_each_ok:
  "(\<And>a. a \<in> set keys \<Longrightarrow> f a = Inr (g a)) \<Longrightarrow>
   extend_each f keys acc = Inr (acc @ concat (map g keys))"
  by (induction keys arbitrary: acc) auto

lemma format_fields_ok:
  "length fs \<le> length args \<Longrightarrow> format_fields fs args = Inr (map2 pad fs args)"
  by (induction fs args rule: format_fields.induct) auto

lemma known_key_cases:
  assumes "a \<in> set (''Always'' # ALL_PROFILES)"
  shows "header_formats a = Inr (or_empty (header_formats a))
       \<and> header_group_labels a = Inr (or_empty (header_group_labels a))
       \<and> header_column_labels a = Inr (or_empty (header_column_labels a))
       \<and> length (or_empty (header_group_labels a)) = length (or_empty (header_formats a))
       \<and> length (or_empty (header_column_labels a)) = length (or_empty (header_formats a))"
proof -
  from assms consider "a = ''Always''" | "a = CPU_PROFILE" | "a = CONTEXT_PROFILE"
    | "a = BLOCK_PROFILE" | "a = IPC_PROFILE" | "a = PAGE_PROFILE" | "a = SWAPS_PROFILE"
    | "a = SOURCE_PROFILE"
    unfolding ALL_PROFILES_def by auto
  then show ?thesis
    by cases (simp_all add: header_formats_def header_group_labels_def header_column_labels_def
        profile_headers_def profile_headers_table_def or_empty_def profile_names)
qed

lemma length_concat_eq:
  "(\<And>a. a \<in> set keys \<Longrightarrow> length (f a) = length (g a)) \<Longrightarrow>
   length (concat (map f keys)) = length (concat (map g keys))"
  by (induction keys) auto

text \<open>
  C1 (as the code has it): \<^verbatim>\<open>profile_report\<close> renders the two header lines and every
  row with the formats of the key \<open>Always\<close> followed by those of the requested
  categories in the order in which they were requested; for known categories no exception
  is raised before the rows. The order is the fixed order of \<open>ALL_PROFILES\<close> only when
  the request is in that order.
\<close>

theorem profile_report_request_order:
  assumes "set categories \<subseteq> set ALL_PROFILES"
  shows "profile_report str_of sql rows categories =
     report_rows str_of (report_formats (''Always'' # categories)) rows
       [[CHR 0x0A] @ ''SQL: '' @ sql, replicate 20 (CHR ''-''),
        join '' '' (map2 pad (report_formats (''Always'' # categories))
                             (report_group_labels (''Always'' # categories))),
        join '' '' (map2 pad (report_formats (''Always'' # categories))
                             (report_column_labels (''Always'' # categories)))]"
proof -
  let ?keys = "''Always'' # categories"
  have known: "\<And>a. a \<in> set ?keys \<Longrightarrow> a \<in> set (''Always'' # ALL_PROFILES)"
    using assms by auto
  have f: "extend_each header_formats ?keys [] = Inr (report_formats ?keys)"
    unfolding report_formats_def
    using extend_each_ok [of ?keys header_formats "\<lambda>a. or_empty (header_formats a)" "[]"]
      known_key_cases known by simp
  have g: "extend_each header_group_labels ?keys [] = Inr (report_group_labels ?keys)"
    unfolding report_group_labels_def
    using extend_each_ok [of ?keys header_group_labels "\<lambda>a. or_empty (header_group_labels a)" "[]"]
      known_key_cases known by simp
  have c: "extend_each header_column_labels ?keys [] = Inr (report_column_labels ?keys)"
    unfolding report_column_labels_def
    using extend_each_ok [of ?keys header_column_labels "\<lambda>a. or_empty (header_column_labels a)" "[]"]
      known_key_cases known by simp
  have lg: "length (report_formats ?keys) \<le> length (report_group_labels ?keys)"
    unfolding report_formats_def report_group_labels_def
    using length_concat_eq [of ?keys "\<lambda>a. or_empty (header_group_labels a)" "\<lambda>a. or_empty (header_formats a)"]
      known_key_cases known by simp
  have lc: "length (report_formats ?keys) \<le> length (report_column_labels ?keys)"
    unfolding report_formats_def report_column_labels_def
    using length_concat_eq [of ?keys "\<lambda>a. or_empty (header_column_labels a)" "\<lambda>a. or_empty (header_formats a)"]
      known_key_cases known by simp
  have s1: "str_format (report_formats ?keys) (report_group_labels ?keys) =
      Inr (join '' '' (map2 pad (report_formats ?keys) (report_group_labels ?keys)))"
    by (simp add: str_format_def format_fields_ok [OF lg])
  have s2: "str_format (report_formats ?keys) (report_column_labels ?keys) =
      Inr (join '' '' (map2 pad (report_formats ?keys) (report_column_labels ?keys)))"
    by (simp add: str_format_def format_fields_ok [OF lc])
  show ?thesis
    unfolding profile_report_def Let_def
    using f g c s1 s2 by simp
qed

theorem profile_report_request_order_witness:
  "set [SOURCE_PROFILE, CPU_PROFILE] \<subseteq> set ALL_PROFILES \<and>
   profile_report (\<lambda>v. v) ''select 1=1'' [] [SOURCE_PROFILE, CPU_PROFILE] =
     ([[CHR 0x0A] @ ''SQL: select 1=1'', ''--------------------'',
       pad (AlignLeft, 20) [] @ '' '' @ pad (AlignRight, 10) [] @ '' '' @
       pad (AlignRight, 18) [] @ '' '' @ pad (AlignRight, 15) [] @ '' '' @ pad (AlignRight, 12) [] @ '' '' @
       pad (AlignRight, 10) [] @ '' '' @ pad (AlignRight, 11) [],
       pad (AlignLeft, 20) ''Status'' @ '' '' @ pad (AlignRight, 10) ''Duration'' @ '' '' @
       pad (AlignRight, 18) ''Source function'' @ '' '' @ pad (AlignRight, 15) ''Source file'' @ '' '' @
       pad (AlignRight, 12) ''Source line'' @ '' '' @
       pad (AlignRight, 10) ''CPU User'' @ '' '' @ pad (AlignRight, 11) ''CPU System''], None)"
  using profile_report_request_order [of "[SOURCE_PROFILE, CPU_PROFILE]" "\<lambda>v. v" "''select 1=1''" "[]"]
  by (simp add: ALL_PROFILES_def profile_names report_formats_def report_group_labels_def
      report_column_labels_def or_empty_def header_formats_def header_group_labels_def
      header_column_labels_def profile_headers_def profile_headers_table_def replicate_numeral)


text \<open>
  C1 as stated (the output does not depend on the order of the request) fails: asking for
  SOURCE before CPU puts the SOURCE columns before the CPU columns.
\<close>

theorem profile_report_order_counterexample:
  "profile_report (\<lambda>v. v) ''select 1=1'' [] [SOURCE_PROFILE, CPU_PROFILE] \<noteq>
   profile_report (\<lambda>v. v) ''select 1=1'' [] [CPU_PROFILE, SOURCE_PROFILE]"
  by (simp add: profile_report_def header_formats_def header_group_labels_def
      header_column_labels_def profile_headers_def profile_headers_table_def str_format_def
      profile_names)


lemma created_groups_append: "created_groups (xs @ ys) = created_groups xs @ created_groups ys"
  by (simp add: created_groups_def)

lemma applied_to_append: "applied_to g (xs @ ys) = applied_to g xs @ applied_to g ys"
  by (simp add: applied_to_def)

lemma fetched_pages_append: "fetched_pages (xs @ ys) = fetched_pages xs @ fetched_pages ys"
  by (simp add: fetched_pages_def)

lemma digit_val_digit_char: "d < 10 \<Longrightarrow> digit_val (digit_char d) = d"
proof -
  assume "d < 10"
  then consider "d = 0" | "d = 1" | "d = 2" | "d = 3" | "d = 4" | "d = 5" | "d = 6" | "d = 7"
    | "d = 8" | "d = 9" by atomize_elim arith
  then show ?thesis
    by cases (simp_all add: digit_val_def digit_char_def)
qed

lemma nat_of_digits_str_nat: "nat_of_digits (str_nat n) = n"
proof (induction n rule: str_nat.induct)
  case (1 n)
  show ?case
  proof (cases "n < 10")
    case True
    then show ?thesis
      by (subst str_nat.simps) (simp add: nat_of_digits_def digit_val_digit_char)
  next
    case False
    with 1 have ih: "nat_of_digits (str_nat (n div 10)) = n div 10" by simp
    have "nat_of_digits (str_nat n) = 10 * nat_of_digits (str_nat (n div 10)) + digit_val (digit_char (n mod 10))"
      using False by (subst str_nat.simps) (simp add: nat_of_digits_def)
    then show ?thesis
      using ih by (simp add: digit_val_digit_char)
  qed
qed

lemma str_nat_inj: "str_nat m = str_nat n \<Longrightarrow> m = n"
  by (metis nat_of_digits_str_nat)

lemma pg_name_of_inj: "pg_name_of p i = pg_name_of p j \<Longrightarrow> i = j"
  by (simp add: pg_name_of_def str_nat_inj)

subsection \<open>Parameter groups\<close>


lemma rds_call_cases:
  "rds_call env tr c = (tr @ [c], case rds_fault env tr c of None \<Rightarrow> Inr () | Some e \<Rightarrow> Inl e)"
  by (simp add: rds_call_def split: option.splits)

text \<open>
  C5: when the first page of the catalog (fetched without failure) does not list the
  parameter, \<^verbatim>\<open>set_param\<close> fetches the catalog exactly once more, with the marker of the
  first page. When that second fetch succeeds and the second page lists the parameter,
  the value is applied once, from the second page: the calls are the two fetches and the
  one change and no other, and the result is that of the change, so that an exception of
  the change is the exception of \<^verbatim>\<open>set_param\<close>. When the second page does not list the
  parameter either, KeyError is raised and nothing is applied. Every failure of the second
  attempt is the result of \<^verbatim>\<open>set_param\<close>: no third fetch is made.
\<close>

theorem set_param_retry_once:
  assumes absent: "param \<notin> set (fst (parameters_page env pg None))"
    and first_ok: "rds_fault env tr (GetAllDbParameters pg None) = None"
    and run: "set_param env tr pg param val = (tr', r)"
  shows "fetched_pages (drop (length tr) tr') =
           [(pg, None), (pg, snd (parameters_page env pg None))]
       \<and> (r = Inr () \<longrightarrow>
            param \<in> set (fst (parameters_page env pg (snd (parameters_page env pg None))))
          \<and> tr' = tr @ [GetAllDbParameters pg None,
                         GetAllDbParameters pg (snd (parameters_page env pg None)),
                         ModifyParameterGroup pg param val])
       \<and> (rds_fault env (tr @ [GetAllDbParameters pg None])
              (GetAllDbParameters pg (snd (parameters_page env pg None))) = None
          \<and> param \<in> set (fst (parameters_page env pg (snd (parameters_page env pg None)))) \<longrightarrow>
            tr' = tr @ [GetAllDbParameters pg None,
                        GetAllDbParameters pg (snd (parameters_page env pg None)),
                        ModifyParameterGroup pg param val]
          \<and> applied_to pg (drop (length tr) tr') = [(param, val)]
          \<and> r = (case rds_fault env
                         (tr @ [GetAllDbParameters pg None,
                                GetAllDbParameters pg (snd (parameters_page env pg None))])
                         (ModifyParameterGroup pg param val) of
                    None \<Rightarrow> Inr () | Some e \<Rightarrow> Inl e))
       \<and> (param \<notin> set (fst (parameters_page env pg (snd (parameters_page env pg None)))) \<longrightarrow>
            (\<exists>e. r = Inl e) \<and> applied_to pg (drop (length tr) tr') = []
          \<and> (rds_fault env (tr @ [GetAllDbParameters pg None])
                (GetAllDbParameters pg (snd (parameters_page env pg None))) = None \<longrightarrow>
              r = Inl (KeyError param)))
       \<and> (\<forall>e. rds_fault env (tr @ [GetAllDbParameters pg None])
                (GetAllDbParameters pg (snd (parameters_page env pg None))) = Some e \<longrightarrow>
              r = Inl e \<and> applied_to pg (drop (length tr) tr') = []
            \<and> tr' = tr @ [GetAllDbParameters pg None,
                          GetAllDbParameters pg (snd (parameters_page env pg None))])"
  using assms
  by (auto simp: set_param_def rds_call_cases fetched_pages_def applied_to_def
      split: prod.splits option.splits if_splits sum.splits)

theorem set_param_retry_once_witness:
  "''collation_server'' \<notin> set (fst (parameters_page example_rds ''pgtesting-0'' None))
   \<and> rds_fault example_rds [] (GetAllDbParameters ''pgtesting-0'' None) = None
   \<and> set_param example_rds [] ''pgtesting-0'' ''collation_server'' (PStr ''utf8_general_ci'') =
       ([GetAllDbParameters ''pgtesting-0'' None,
         GetAllDbParameters ''pgtesting-0'' (Some ''page2''),
         ModifyParameterGroup ''pgtesting-0'' ''collation_server'' (PStr ''utf8_general_ci'')],
        Inr ())
   \<and> fetched_pages [GetAllDbParameters ''pgtesting-0'' None,
         GetAllDbParameters ''pgtesting-0'' (Some ''page2''),
         ModifyParameterGroup ''pgtesting-0'' ''collation_server'' (PStr ''utf8_general_ci'')] =
       [(''pgtesting-0'', None), (''pgtesting-0'', Some ''page2'')]
   \<and> ''collation_server'' \<notin> set (fst (parameters_page refusing_rds ''pgtesting-0'' None))
   \<and> rds_fault refusing_rds [] (GetAllDbParameters ''pgtesting-0'' None) = None
   \<and> rds_fault refusing_rds ([] @ [GetAllDbParameters ''pgtesting-0'' None])
        (GetAllDbParameters ''pgtesting-0'' (snd (parameters_page refusing_rds ''pgtesting-0'' None)))
        = None
   \<and> ''collation_server'' \<in> set (fst (parameters_page refusing_rds ''pgtesting-0''
                                       (snd (parameters_page refusing_rds ''pgtesting-0'' None))))
   \<and> set_param refusing_rds [] ''pgtesting-0'' ''collation_server'' (PStr ''utf8_general_ci'') =
       ([GetAllDbParameters ''pgtesting-0'' None,
         GetAllDbParameters ''pgtesting-0'' (Some ''page2''),
         ModifyParameterGroup ''pgtesting-0'' ''collation_server'' (PStr ''utf8_general_ci'')],
        Inl (BotoServerError ''InvalidParameterValue''))"
proof -
  have a: "''collation_server'' \<notin> set (fst (parameters_page example_rds ''pgtesting-0'' None))"
    by (simp add: example_rds_def)
  have b: "rds_fault example_rds [] (GetAllDbParameters ''pgtesting-0'' None) = None"
    by (simp add: example_rds_def)
  have c: "set_param example_rds [] ''pgtesting-0'' ''collation_server'' (PStr ''utf8_general_ci'') =
       ([GetAllDbParameters ''pgtesting-0'' None,
         GetAllDbParameters ''pgtesting-0'' (Some ''page2''),
         ModifyParameterGroup ''pgtesting-0'' ''collation_server'' (PStr ''utf8_general_ci'')],
        Inr ())"
    by (simp add: set_param_def rds_call_def example_rds_def)
  have a2: "''collation_server'' \<notin> set (fst (parameters_page refusing_rds ''pgtesting-0'' None))"
    by (simp add: refusing_rds_def example_rds_def)
  have b2: "rds_fault refusing_rds [] (GetAllDbParameters ''pgtesting-0'' None) = None"
    by (simp add: refusing_rds_def)
  have m2: "snd (parameters_page refusing_rds ''pgtesting-0'' None) = Some ''page2''"
    by (simp add: refusing_rds_def example_rds_def)
  have d2: "rds_fault refusing_rds ([] @ [GetAllDbParameters ''pgtesting-0'' None])
        (GetAllDbParameters ''pgtesting-0'' (snd (parameters_page refusing_rds ''pgtesting-0'' None)))
        = None"
    by (simp add: refusing_rds_def)
  have e2: "''collation_server'' \<in> set (fst (parameters_page refusing_rds ''pgtesting-0''
                                       (snd (parameters_page refusing_rds ''pgtesting-0'' None))))"
    by (simp add: refusing_rds_def example_rds_def)
  have f2: "rds_fault refusing_rds
              ([] @ [GetAllDbParameters ''pgtesting-0'' None,
                     GetAllDbParameters ''pgtesting-0''
                       (snd (parameters_page refusing_rds ''pgtesting-0'' None))])
              (ModifyParameterGroup ''pgtesting-0'' ''collation_server'' (PStr ''utf8_general_ci''))
            = Some (BotoServerError ''InvalidParameterValue'')"
    by (simp add: refusing_rds_def)
  obtain tr2 r2 where c2:
    "set_param refusing_rds [] ''pgtesting-0'' ''collation_server'' (PStr ''utf8_general_ci'') =
     (tr2, r2)"
    by (cases "set_param refusing_rds [] ''pgtesting-0'' ''collation_server''
                 (PStr ''utf8_general_ci'')")
  from set_param_retry_once [OF a2 b2 c2] d2 e2
  have "tr2 = [] @ [GetAllDbParameters ''pgtesting-0'' None,
                    GetAllDbParameters ''pgtesting-0''
                      (snd (parameters_page refusing_rds ''pgtesting-0'' None)),
                    ModifyParameterGroup ''pgtesting-0'' ''collation_server''
                      (PStr ''utf8_general_ci'')]"
    and "r2 = (case rds_fault refusing_rds
                      ([] @ [GetAllDbParameters ''pgtesting-0'' None,
                             GetAllDbParameters ''pgtesting-0''
                               (snd (parameters_page refusing_rds ''pgtesting-0'' None))])
                      (ModifyParameterGroup ''pgtesting-0'' ''collation_server''
                         (PStr ''utf8_general_ci'')) of
                 None \<Rightarrow> Inr () | Some e \<Rightarrow> Inl e)"
    by blast+
  with c2 f2 m2 have g2:
    "set_param refusing_rds [] ''pgtesting-0'' ''collation_server'' (PStr ''utf8_general_ci'') =
       ([GetAllDbParameters ''pgtesting-0'' None,
         GetAllDbParameters ''pgtesting-0'' (Some ''page2''),
         ModifyParameterGroup ''pgtesting-0'' ''collation_server'' (PStr ''utf8_general_ci'')],
        Inl (BotoServerError ''InvalidParameterValue''))"
    by simp
  have fp: "fetched_pages [GetAllDbParameters ''pgtesting-0'' None,
         GetAllDbParameters ''pgtesting-0'' (Some ''page2''),
         ModifyParameterGroup ''pgtesting-0'' ''collation_server'' (PStr ''utf8_general_ci'')] =
       [(''pgtesting-0'', None), (''pgtesting-0'', Some ''page2'')]"
    using set_param_retry_once [OF a b c] by (simp add: example_rds_def)
  from a b c fp a2 b2 d2 e2 g2 show ?thesis by blast
qed

lemma set_param_created:
  "set_param env tr g p v = (tr', r) \<Longrightarrow> created_groups tr' = created_groups tr"
  by (auto simp: set_param_def rds_call_cases created_groups_def
      split: prod.splits option.splits if_splits)

lemma set_params_created:
  "set_params env tr g ps = (tr', r) \<Longrightarrow> created_groups tr' = created_groups tr"
proof (induction ps arbitrary: tr)
  case Nil
  then show ?case by simp
next
  case (Cons a ps)
  obtain tr1 r1 where s: "set_param env tr g (fst a) (snd a) = (tr1, r1)"
    by (cases "set_param env tr g (fst a) (snd a)")
  show ?case
  proof (cases r1)
    case (Inl e)
    with Cons.prems s set_param_created [OF s] show ?thesis by simp
  next
    case (Inr u)
    with Cons.prems s have "set_params env tr1 g ps = (tr', r)" by simp
    from Cons.IH [OF this] set_param_created [OF s] show ?thesis by simp
  qed
qed

lemma set_param_applied:
  "set_param env tr g p v = (tr', Inr ()) \<Longrightarrow>
   applied_to h tr' = applied_to h tr @ (if g = h then [(p, v)] else [])"
  by (auto simp: set_param_def rds_call_cases applied_to_def
      split: prod.splits option.splits if_splits)

lemma set_params_applied:
  "set_params env tr g ps = (tr', Inr ()) \<Longrightarrow>
   applied_to h tr' = applied_to h tr @ (if g = h then ps else [])"
proof (induction ps arbitrary: tr)
  case Nil
  then show ?case by simp
next
  case (Cons a ps)
  obtain tr1 r1 where s: "set_param env tr g (fst a) (snd a) = (tr1, r1)"
    by (cases "set_param env tr g (fst a) (snd a)")
  show ?case
  proof (cases r1)
    case (Inl e)
    with Cons.prems s show ?thesis by simp
  next
    case (Inr u)
    with Cons.prems s have rest: "set_params env tr1 g ps = (tr', Inr ())" by simp
    from Inr s have "set_param env tr g (fst a) (snd a) = (tr1, Inr ())" by simp
    from set_param_applied [OF this, of h] Cons.IH [OF rest] show ?thesis by simp
  qed
qed

text \<open>One step of the loop of \<^verbatim>\<open>create_param_groups\<close> that goes on.\<close>

lemma create_groups_step:
  assumes "create_groups env tr p e i (s # specs) acc = (tr', Inr names)"
  shows "\<exists>tr2. create_groups env tr2 p e (Suc i) specs (acc @ [pg_name_of p i]) = (tr', Inr names)
           \<and> created_groups tr2 = created_groups tr @ [pg_name_of p i]
           \<and> (\<forall>h. applied_to h tr2 =
                   applied_to h tr @ (if pg_name_of p i = h then spec_pairs s else []))"
proof -
  let ?c = "CreateParameterGroup (pg_name_of p i) e (pg_description p i)"
  let ?tr1 = "tr @ [?c]"
  from assms have ok: "rds_fault env tr ?c = None"
    by (auto simp: rds_call_cases split: option.splits)
  obtain tr2 r2 where inner:
    "(case s of PList pvals \<Rightarrow> set_params env ?tr1 (pg_name_of p i) pvals
              | PTuple param val \<Rightarrow> set_param env ?tr1 (pg_name_of p i) param val) = (tr2, r2)"
    by (cases "(case s of PList pvals \<Rightarrow> set_params env ?tr1 (pg_name_of p i) pvals
              | PTuple param val \<Rightarrow> set_param env ?tr1 (pg_name_of p i) param val)")
  from assms ok inner have r2: "r2 = Inr ()"
    by (cases r2) (auto simp: rds_call_cases)
  from assms ok inner r2
  have next_run: "create_groups env tr2 p e (Suc i) specs (acc @ [pg_name_of p i]) = (tr', Inr names)"
    by (simp add: rds_call_cases)
  have cr: "created_groups tr2 = created_groups tr @ [pg_name_of p i]"
    using inner set_params_created set_param_created
    by (cases s) (auto simp: created_groups_append created_groups_def)
  have ap: "\<forall>h. applied_to h tr2 =
              applied_to h tr @ (if pg_name_of p i = h then spec_pairs s else [])"
  proof (cases s)
    case (PList pvals)
    with inner r2 have "set_params env ?tr1 (pg_name_of p i) pvals = (tr2, Inr ())" by simp
    from set_params_applied [OF this] PList show ?thesis
      by (simp add: applied_to_append) (simp add: applied_to_def)
  next
    case (PTuple param val)
    with inner r2 have "set_param env ?tr1 (pg_name_of p i) param val = (tr2, Inr ())" by simp
    from set_param_applied [OF this] PTuple show ?thesis
      by (simp add: applied_to_append) (simp add: applied_to_def)
  qed
  from next_run cr ap show ?thesis by blast
qed

lemma create_groups_result:
  "create_groups env tr p e i specs acc = (tr', Inr names) \<Longrightarrow>
   names = acc @ map (\<lambda>(j, s). pg_name_of p j) (enumerate i specs)
   \<and> created_groups tr' =
       created_groups tr @ map (\<lambda>(j, s). pg_name_of p j) (enumerate i specs)
   \<and> (\<forall>h. applied_to h tr' = applied_to h tr @
         concat (map (\<lambda>(j, s). if pg_name_of p j = h then spec_pairs s else [])
                     (enumerate i specs)))"
proof (induction specs arbitrary: tr i acc)
  case Nil
  then show ?case by simp
next
  case (Cons s specs)
  from create_groups_step [OF Cons.prems] obtain tr2 where
    run: "create_groups env tr2 p e (Suc i) specs (acc @ [pg_name_of p i]) = (tr', Inr names)"
    and cr: "created_groups tr2 = created_groups tr @ [pg_name_of p i]"
    and ap: "\<And>h. applied_to h tr2 =
                   applied_to h tr @ (if pg_name_of p i = h then spec_pairs s else [])"
    by blast
  from Cons.IH [OF run] cr ap show ?case
    by simp
qed

lemma enumerate_names:
  "map (\<lambda>(j, s). f j) (enumerate i specs) = map f [i..<i + length specs]"
proof -
  have "\<And>xs :: (nat \<times> 'b) list. map (\<lambda>(j, s). f j) xs = map f (map fst xs)"
    by (simp add: case_prod_beta)
  then have "map (\<lambda>(j, s). f j) (enumerate i specs) = map f (map fst (enumerate i specs))"
    by blast
  then show ?thesis by simp
qed

text \<open>
  C2 (as the code has it): when \<^verbatim>\<open>create_param_groups\<close> returns, the group created for
  the \<open>i\<close>-th specification was named \<open>pg\<close>, the run label, a hyphen and \<open>i\<close>, and
  the list returned holds these names in the order of the input.
\<close>

theorem create_param_groups_names:
  assumes "create_param_groups env tr name_prefix params_to_vary engine = (tr', Inr names)"
  shows "names = map (\<lambda>i. ''pg'' @ name_prefix @ ''-'' @ str_nat i) [0..<length params_to_vary]
       \<and> created_groups tr' = created_groups tr @ names"
proof -
  from assms have run: "create_groups env tr name_prefix engine 0 params_to_vary [] = (tr', Inr names)"
    by (simp add: create_param_groups_def)
  from create_groups_result [OF run]
  have n: "names = map (\<lambda>(j, s). pg_name_of name_prefix j) (enumerate 0 params_to_vary)"
    and c: "created_groups tr' = created_groups tr @ names" by simp_all
  from n have "names = map (pg_name_of name_prefix) [0..<length params_to_vary]"
    by (simp add: enumerate_names)
  with c show ?thesis by (simp add: pg_name_of_def [abs_def])
qed

theorem create_param_groups_names_witness:
  "create_param_groups example_rds [] ''testing'' [PList [], PTuple ''tmp_table_size'' (PInt 64)]
     ''MySQL5.5'' =
     ([CreateParameterGroup ''pgtesting-0'' ''MySQL5.5'' ''testing 0'',
       CreateParameterGroup ''pgtesting-1'' ''MySQL5.5'' ''testing 1'',
       GetAllDbParameters ''pgtesting-1'' None,
       GetAllDbParameters ''pgtesting-1'' (Some ''page2''),
       ModifyParameterGroup ''pgtesting-1'' ''tmp_table_size'' (PInt 64)],
      Inr [''pgtesting-0'', ''pgtesting-1''])
   \<and> [''pgtesting-0'', ''pgtesting-1''] =
       map (\<lambda>i. ''pg'' @ ''testing'' @ ''-'' @ str_nat i) [0..<length [PList [], PTuple ''tmp_table_size'' (PInt 64)]]"
proof -
  have run: "create_param_groups example_rds [] ''testing'' [PList [], PTuple ''tmp_table_size'' (PInt 64)]
     ''MySQL5.5'' =
     ([CreateParameterGroup ''pgtesting-0'' ''MySQL5.5'' ''testing 0'',
       CreateParameterGroup ''pgtesting-1'' ''MySQL5.5'' ''testing 1'',
       GetAllDbParameters ''pgtesting-1'' None,
       GetAllDbParameters ''pgtesting-1'' (Some ''page2''),
       ModifyParameterGroup ''pgtesting-1'' ''tmp_table_size'' (PInt 64)],
      Inr [''pgtesting-0'', ''pgtesting-1''])"
    by (simp add: create_param_groups_def pg_name_of_def set_param_def rds_call_def
        example_rds_def digit_char_def pg_description_def str_nat.simps)
  from create_param_groups_names [OF run] run show ?thesis by simp
qed

text \<open>
  C2 as stated (the name is the run label, a hyphen and the index) fails: the group of the
  first specification of the run \<open>testing\<close> is \<open>pgtesting-0\<close>, not \<open>testing-0\<close>.
\<close>

theorem create_param_groups_names_counterexample:
  "snd (create_param_groups example_rds [] ''testing'' [PList []] ''MySQL5.5'') = Inr [''pgtesting-0'']
   \<and> created_groups (fst (create_param_groups example_rds [] ''testing'' [PList []] ''MySQL5.5''))
       = [''pgtesting-0'']
   \<and> ''pgtesting-0'' \<noteq> ''testing'' @ ''-'' @ str_nat 0"
  by (simp add: create_param_groups_def pg_name_of_def rds_call_def example_rds_def
      digit_char_def created_groups_def pg_description_def str_nat.simps)

lemma concat_none:
  "(\<And>x. x \<in> set xs \<Longrightarrow> f x = []) \<Longrightarrow> concat (map f xs) = []"
  by (induction xs) auto

lemma enumerate_pick:
  assumes inj: "\<And>a b. f a = f b \<Longrightarrow> a = b"
    and k: "k < length specs"
  shows "concat (map (\<lambda>(j, s). if f j = f (i + k) then h s else []) (enumerate i specs)) =
         h (specs ! k)"
  using k
proof (induction specs arbitrary: i k)
  case Nil
  then show ?case by simp
next
  case (Cons s specs)
  show ?case
  proof (cases k)
    case 0
    have "concat (map (\<lambda>(j, s). if f j = f i then h s else []) (enumerate (Suc i) specs)) = []"
    proof (rule concat_none)
      fix x assume "x \<in> set (enumerate (Suc i) specs)"
      then have "Suc i \<le> fst x" by (auto simp: in_set_enumerate_eq)
      then have "f (fst x) \<noteq> f i" using inj by fastforce
      then show "(case x of (j, s) \<Rightarrow> if f j = f i then h s else []) = []"
        by (simp add: case_prod_beta)
    qed
    with 0 show ?thesis by simp
  next
    case (Suc k')
    with Cons.prems have "k' < length specs" by simp
    from Cons.IH [OF this, of "Suc i"] have
      "concat (map (\<lambda>(j, s). if f j = f (Suc i + k') then h s else []) (enumerate (Suc i) specs)) =
       h (specs ! k')" .
    moreover have "f i \<noteq> f (i + Suc k')" using inj by fastforce
    ultimately show ?thesis using Suc by simp
  qed
qed

text \<open>
  C6: the main program appends the seven UTF-8 pairs to every specification and creates
  the groups; when that returns, the values applied to the group of the \<open>i\<close>-th
  specification are, in order, the pairs of the specification followed by the seven UTF-8
  pairs (for an empty specification, the UTF-8 pairs only).
\<close>

theorem main_param_groups_applied:
  assumes run: "main_param_groups env tr name_prefix parameters = (tr', Inr names)"
    and i: "i < length parameters"
  shows "names ! i = pg_name_of name_prefix i
       \<and> applied_to (names ! i) tr' =
           applied_to (names ! i) tr @ parameters ! i @
           [(''character_set_server'', PStr ''utf8''),
            (''character_set_client'', PStr ''utf8''),
            (''character_set_connection'', PStr ''utf8''),
            (''character_set_database'', PStr ''utf8''),
            (''character_set_results'', PStr ''utf8''),
            (''collation_server'', PStr ''utf8_general_ci''),
            (''collation_connection'', PStr ''utf8_general_ci'')]"
proof -
  let ?specs = "map (\<lambda>pg. PList (add_utf8_support pg)) parameters"
  from run have r: "create_groups env tr name_prefix ''MySQL5.5'' 0 ?specs [] = (tr', Inr names)"
    by (simp add: main_param_groups_def create_param_groups_def)
  from create_groups_result [OF r]
  have n: "names = map (\<lambda>(j, s). pg_name_of name_prefix j) (enumerate 0 ?specs)"
    and a: "\<And>h. applied_to h tr' = applied_to h tr @
         concat (map (\<lambda>(j, s). if pg_name_of name_prefix j = h then spec_pairs s else [])
                     (enumerate 0 ?specs))"
    by simp_all
  from n i have ni: "names ! i = pg_name_of name_prefix i"
    by (simp add: enumerate_names)
  have "concat (map (\<lambda>(j, s). if pg_name_of name_prefix j = pg_name_of name_prefix (0 + i)
                                then spec_pairs s else []) (enumerate 0 ?specs)) =
        spec_pairs (?specs ! i)"
    using i by (intro enumerate_pick) (auto dest: pg_name_of_inj)
  with a [of "pg_name_of name_prefix i"] i ni show ?thesis
    by (simp add: add_utf8_support_def utf8params_def)
qed

theorem main_param_groups_applied_witness:
  "snd (main_param_groups example_rds [] label main_parameters) =
     Inr [''pgtesting-0'', ''pgtesting-1'']
   \<and> applied_to ''pgtesting-0'' (fst (main_param_groups example_rds [] label main_parameters)) =
       [(''character_set_server'', PStr ''utf8''),
        (''character_set_client'', PStr ''utf8''),
        (''character_set_connection'', PStr ''utf8''),
        (''character_set_database'', PStr ''utf8''),
        (''character_set_results'', PStr ''utf8''),
        (''collation_server'', PStr ''utf8_general_ci''),
        (''collation_connection'', PStr ''utf8_general_ci'')]
   \<and> applied_to ''pgtesting-1'' (fst (main_param_groups example_rds [] label main_parameters)) =
       [(''innodb_buffer_pool_size'', PInt 104857600),
        (''max_heap_table_size'', PInt 104857600),
        (''tmp_table_size'', PInt 104857600),
        (''character_set_server'', PStr ''utf8''),
        (''character_set_client'', PStr ''utf8''),
        (''character_set_connection'', PStr ''utf8''),
        (''character_set_database'', PStr ''utf8''),
        (''character_set_results'', PStr ''utf8''),
        (''collation_server'', PStr ''utf8_general_ci''),
        (''collation_connection'', PStr ''utf8_general_ci'')]"
proof -
  let ?run = "main_param_groups example_rds [] label main_parameters"
  have s: "snd ?run = Inr [''pgtesting-0'', ''pgtesting-1'']"
    by (simp add: main_param_groups_def create_param_groups_def add_utf8_support_def
        utf8params_def main_parameters_def label_def set_param_def rds_call_def example_rds_def
        pg_name_of_def pg_description_def str_nat.simps digit_char_def)
  then have run: "?run = (fst ?run, Inr [''pgtesting-0'', ''pgtesting-1''])"
    by (metis prod.collapse)
  have l0: "0 < length main_parameters" and l1: "1 < length main_parameters"
    by (simp_all add: main_parameters_def)
  have e: "applied_to ''pgtesting-0'' [] = []" "applied_to ''pgtesting-1'' [] = []"
    by (simp_all add: applied_to_def)
  have p0: "main_parameters ! 0 = []"
    and p1: "main_parameters ! 1 = [(''innodb_buffer_pool_size'', PInt 104857600),
        (''max_heap_table_size'', PInt 104857600), (''tmp_table_size'', PInt 104857600)]"
    by (simp_all add: main_parameters_def)
  have a0: "applied_to ([''pgtesting-0'', ''pgtesting-1''] ! 0) (fst ?run) =
      applied_to ([''pgtesting-0'', ''pgtesting-1''] ! 0) [] @ main_parameters ! 0 @
           [(''character_set_server'', PStr ''utf8''),
            (''character_set_client'', PStr ''utf8''),
            (''character_set_connection'', PStr ''utf8''),
            (''character_set_database'', PStr ''utf8''),
            (''character_set_results'', PStr ''utf8''),
            (''collation_server'', PStr ''utf8_general_ci''),
            (''collation_connection'', PStr ''utf8_general_ci'')]"
    using main_param_groups_applied [OF run l0] by blast
  have a1: "applied_to ([''pgtesting-0'', ''pgtesting-1''] ! 1) (fst ?run) =
      applied_to ([''pgtesting-0'', ''pgtesting-1''] ! 1) [] @ main_parameters ! 1 @
           [(''character_set_server'', PStr ''utf8''),
            (''character_set_client'', PStr ''utf8''),
            (''character_set_connection'', PStr ''utf8''),
            (''character_set_database'', PStr ''utf8''),
            (''character_set_results'', PStr ''utf8''),
            (''collation_server'', PStr ''utf8_general_ci''),
            (''collation_connection'', PStr ''utf8_general_ci'')]"
    using main_param_groups_applied [OF run l1] by blast
  from a0 a1 s show ?thesis
    unfolding p0 p1 by (simp add: e)
qed

subsection \<open>cleanup\<close>

lemma rounds_append: "rounds (xs @ ys) = rounds xs + rounds ys"
  by (simp add: rounds_def)

lemma sleeps_append: "sleeps (xs @ ys) = sleeps xs @ sleeps ys"
  by (simp add: sleeps_def)

lemma deleted_groups_append: "deleted_groups (xs @ ys) = deleted_groups xs @ deleted_groups ys"
  by (simp add: deleted_groups_def)

lemma delete_instances_neutral:
  "rounds (fst (delete_instances env tr xs)) = rounds tr
   \<and> sleeps (fst (delete_instances env tr xs)) = sleeps tr
   \<and> deleted_groups (fst (delete_instances env tr xs)) = deleted_groups tr"
  by (induction xs arbitrary: tr)
     (auto simp: rds_call_cases rounds_def sleeps_def deleted_groups_def split: option.splits)

lemma delete_instances_ok:
  "(\<And>tr c. rds_fault env tr c = None) \<Longrightarrow> snd (delete_instances env tr xs) = Inr ()"
  by (induction xs arbitrary: tr) (auto simp: rds_call_cases)

lemma delete_parameter_groups_neutral:
  "rounds (fst (delete_parameter_groups env tr gs)) = rounds tr
   \<and> sleeps (fst (delete_parameter_groups env tr gs)) = sleeps tr"
  by (induction gs arbitrary: tr)
     (auto simp: rds_call_cases rounds_def sleeps_def split: option.splits)

lemma delete_parameter_groups_ok:
  "(\<And>tr c. rds_fault env tr c = None) \<Longrightarrow>
   snd (delete_parameter_groups env tr gs) = Inr ()
   \<and> deleted_groups (fst (delete_parameter_groups env tr gs)) = deleted_groups tr @ gs"
  by (induction gs arbitrary: tr) (auto simp: rds_call_cases deleted_groups_def)

lemma cleanup_loop_bound:
  "loop \<le> 10 \<Longrightarrow>
   rounds (fst (cleanup_loop env lbl loop b rs tr)) \<le> rounds tr + (10 - loop)
   \<and> (\<exists>m \<le> 10 - loop. sleeps (fst (cleanup_loop env lbl loop b rs tr)) = sleeps tr @ replicate m 60)"
proof (induction env lbl loop b rs tr rule: cleanup_loop.induct)
  case (1 env lbl loop b rs tr)
  show ?case
  proof (cases "loop < 10 \<and> b")
    case False
    have "cleanup_loop env lbl loop b rs tr = (tr, Inr (loop, rs))"
      by (subst cleanup_loop.simps) (use False in auto)
    then show ?thesis by simp
  next
    case True
    let ?tr1 = "tr @ [GetAllDbInstances None]"
    let ?m = "label_matching lbl (listing env loop)"
    show ?thesis
    proof (cases "rds_fault env tr (GetAllDbInstances None)")
      case (Some e)
      with True have "cleanup_loop env lbl loop b rs tr = (?tr1, Inl e)"
        by (subst cleanup_loop.simps) (simp add: rds_call_cases)
      with True show ?thesis
        by (intro conjI exI [of _ 0]) (auto simp: rounds_def sleeps_def)
    next
      case None
      obtain tr2 r2 where d: "delete_instances env ?tr1 ?m = (tr2, r2)"
        by (cases "delete_instances env ?tr1 ?m")
      from delete_instances_neutral [of env ?tr1 ?m] d
      have n2: "rounds tr2 = rounds tr + 1" "sleeps tr2 = sleeps tr"
        by (simp_all add: rounds_def sleeps_def)
      show ?thesis
      proof (cases r2)
        case (Inl e)
        with True None d have "cleanup_loop env lbl loop b rs tr = (tr2, Inl e)"
          by (subst cleanup_loop.simps) (simp add: rds_call_cases)
        with True n2 show ?thesis
          by (intro conjI exI [of _ 0]) auto
      next
        case (Inr u)
        define tr3 where "tr3 = (if ?m \<noteq> [] then tr2 @ [Sleep 60] else tr2)"
        define b3 where "b3 = (?m \<noteq> [])"
        from True have "Suc loop \<le> 10" by simp
        with "1.IH" [OF True _ _ d [symmetric]] None Inr
        have ih: "rounds (fst (cleanup_loop env lbl (Suc loop) b3 (listing env loop) tr3))
                    \<le> rounds tr3 + (10 - Suc loop)
           \<and> (\<exists>m \<le> 10 - Suc loop.
                sleeps (fst (cleanup_loop env lbl (Suc loop) b3 (listing env loop) tr3)) =
                sleeps tr3 @ replicate m 60)"
          unfolding tr3_def b3_def by (simp add: rds_call_cases)
        have step: "cleanup_loop env lbl loop b rs tr =
                    cleanup_loop env lbl (Suc loop) b3 (listing env loop) tr3"
          unfolding tr3_def b3_def
          using True None d Inr by (subst cleanup_loop.simps) (simp add: rds_call_cases)
        have r3: "rounds tr3 = rounds tr + 1"
          unfolding tr3_def using n2 by (simp add: rounds_def)
        from ih obtain m where m: "m \<le> 10 - Suc loop"
          "sleeps (fst (cleanup_loop env lbl (Suc loop) b3 (listing env loop) tr3)) =
                sleeps tr3 @ replicate m 60" by blast
        have s3: "sleeps tr3 = sleeps tr @ replicate (if ?m \<noteq> [] then 1 else 0) 60"
          unfolding tr3_def using n2 by (simp add: sleeps_def)
        have "sleeps (fst (cleanup_loop env lbl loop b rs tr)) =
              sleeps tr @ replicate ((if ?m \<noteq> [] then 1 else 0) + m) 60"
          unfolding step m(2) s3 by (simp add: replicate_add)
        moreover have "(if ?m \<noteq> [] then 1 else 0) + m \<le> 10 - loop" using m(1) True by auto
        ultimately have "\<exists>m \<le> 10 - loop. sleeps (fst (cleanup_loop env lbl loop b rs tr)) =
              sleeps tr @ replicate m 60" by blast
        moreover from ih have "rounds (fst (cleanup_loop env lbl (Suc loop) b3 (listing env loop) tr3))
                    \<le> rounds tr3 + (10 - Suc loop)" by blast
        with r3 True have "rounds (fst (cleanup_loop env lbl loop b rs tr)) \<le> rounds tr + (10 - loop)"
          unfolding step by linarith
        ultimately show ?thesis by blast
      qed
    qed
  qed
qed

lemma cleanup_loop_run:
  "\<forall>tr c. rds_fault env tr c = None \<Longrightarrow> loop \<le> 10 \<Longrightarrow>
    \<exists>n rs1 tr1. cleanup_loop env lbl loop b rs tr = (tr1, Inr (n, rs1)) \<and> loop \<le> n \<and> n \<le> 10
      \<and> rounds tr1 = rounds tr + (n - loop)
      \<and> deleted_groups tr1 = deleted_groups tr
      \<and> (loop < 10 \<and> b \<longrightarrow> loop < n \<and> rs1 = listing env (n - 1))
      \<and> (\<not> (loop < 10 \<and> b) \<longrightarrow> n = loop \<and> rs1 = rs \<and> tr1 = tr)
      \<and> (\<forall>k. loop \<le> k \<and> Suc k < n \<longrightarrow> label_matching lbl (listing env k) \<noteq> [])
      \<and> (loop < n \<and> n < 10 \<longrightarrow> label_matching lbl (listing env (n - 1)) = [])
      \<and> (loop < n \<longrightarrow> sleeps tr1 = sleeps tr @
            replicate (if label_matching lbl (listing env (n - 1)) = [] then n - 1 - loop
                       else n - loop) 60)"
proof (induction env lbl loop b rs tr rule: cleanup_loop.induct)
  case (1 env lbl loop b rs tr)
  show ?case
  proof (cases "loop < 10 \<and> b")
    case False
    have "cleanup_loop env lbl loop b rs tr = (tr, Inr (loop, rs))"
      by (subst cleanup_loop.simps) (use False in auto)
    with False "1.prems" show ?thesis by auto
  next
    case True
    let ?tr1 = "tr @ [GetAllDbInstances None]"
    let ?m = "label_matching lbl (listing env loop)"
    have nfa: "\<forall>tr c. rds_fault env tr c = None" by (rule "1.prems"(1))
    then have nf: "\<And>tr c. rds_fault env tr c = None" by blast
    obtain tr2 r2 where d: "delete_instances env ?tr1 ?m = (tr2, r2)"
      by (cases "delete_instances env ?tr1 ?m")
    from delete_instances_ok [of env ?tr1 ?m] nf d have r2: "r2 = Inr ()" by simp
    from delete_instances_neutral [of env ?tr1 ?m] d
    have n2: "rounds tr2 = rounds tr + 1" "sleeps tr2 = sleeps tr"
      "deleted_groups tr2 = deleted_groups tr"
      by (simp_all add: rounds_def sleeps_def deleted_groups_def)
    define tr3 where "tr3 = (if ?m \<noteq> [] then tr2 @ [Sleep 60] else tr2)"
    define b3 where "b3 = (?m \<noteq> [])"
    have step: "cleanup_loop env lbl loop b rs tr =
                cleanup_loop env lbl (Suc loop) b3 (listing env loop) tr3"
      unfolding tr3_def b3_def
      using True nf d r2 by (subst cleanup_loop.simps) (simp add: rds_call_cases)
    have r3: "rounds tr3 = rounds tr + 1" "deleted_groups tr3 = deleted_groups tr"
      "sleeps tr3 = sleeps tr @ (if b3 then [60] else [])"
      unfolding tr3_def b3_def using n2 by (simp_all add: rounds_def deleted_groups_def sleeps_def)
    from True have le: "Suc loop \<le> 10" by simp
    have "\<exists>n rs1 tr1. cleanup_loop env lbl (Suc loop) b3 (listing env loop) tr3 = (tr1, Inr (n, rs1))
      \<and> Suc loop \<le> n \<and> n \<le> 10
      \<and> rounds tr1 = rounds tr3 + (n - Suc loop)
      \<and> deleted_groups tr1 = deleted_groups tr3
      \<and> (Suc loop < 10 \<and> b3 \<longrightarrow> Suc loop < n \<and> rs1 = listing env (n - 1))
      \<and> (\<not> (Suc loop < 10 \<and> b3) \<longrightarrow> n = Suc loop \<and> rs1 = listing env loop \<and> tr1 = tr3)
      \<and> (\<forall>k. Suc loop \<le> k \<and> Suc k < n \<longrightarrow> label_matching lbl (listing env k) \<noteq> [])
      \<and> (Suc loop < n \<and> n < 10 \<longrightarrow> label_matching lbl (listing env (n - 1)) = [])
      \<and> (Suc loop < n \<longrightarrow> sleeps tr1 = sleeps tr3 @
            replicate (if label_matching lbl (listing env (n - 1)) = [] then n - 1 - Suc loop
                       else n - Suc loop) 60)"
    proof -
      have rc: "(?tr1, Inr ()) = rds_call env tr (GetAllDbInstances None)"
        using nf by (simp add: rds_call_cases)
      have dd: "(tr2, Inr ()) = delete_instances env ?tr1 ?m" using d r2 by simp
      show ?thesis
        unfolding tr3_def b3_def
        by (rule "1.IH" [OF True rc refl dd refl nfa le])
    qed
    then obtain n rs1 tr1 where
      run: "cleanup_loop env lbl (Suc loop) b3 (listing env loop) tr3 = (tr1, Inr (n, rs1))"
      and bounds: "Suc loop \<le> n" "n \<le> 10"
      and rnd: "rounds tr1 = rounds tr3 + (n - Suc loop)"
      and del: "deleted_groups tr1 = deleted_groups tr3"
      and go: "Suc loop < 10 \<and> b3 \<longrightarrow> Suc loop < n \<and> rs1 = listing env (n - 1)"
      and stop: "\<not> (Suc loop < 10 \<and> b3) \<longrightarrow> n = Suc loop \<and> rs1 = listing env loop \<and> tr1 = tr3"
      and before: "\<forall>k. Suc loop \<le> k \<and> Suc k < n \<longrightarrow> label_matching lbl (listing env k) \<noteq> []"
      and last: "Suc loop < n \<and> n < 10 \<longrightarrow> label_matching lbl (listing env (n - 1)) = []"
      and slp: "Suc loop < n \<longrightarrow> sleeps tr1 = sleeps tr3 @
            replicate (if label_matching lbl (listing env (n - 1)) = [] then n - 1 - Suc loop
                       else n - Suc loop) 60"
      by blast
    have c1: "rs1 = listing env (n - 1)" using go stop by (cases "Suc loop < 10 \<and> b3") auto
    have c2: "\<forall>k. loop \<le> k \<and> Suc k < n \<longrightarrow> label_matching lbl (listing env k) \<noteq> []"
    proof (intro allI impI)
      fix k assume k: "loop \<le> k \<and> Suc k < n"
      show "label_matching lbl (listing env k) \<noteq> []"
      proof (cases "k = loop")
        case True
        with k stop have "b3" by auto
        with True show ?thesis by (simp add: b3_def)
      next
        case False
        with k before show ?thesis by auto
      qed
    qed
    have c3: "loop < n \<and> n < 10 \<longrightarrow> label_matching lbl (listing env (n - 1)) = []"
    proof (cases "n = Suc loop")
      case True
      show ?thesis
      proof (intro impI)
        assume "loop < n \<and> n < 10"
        with True go have "\<not> b3" by auto
        with True show "label_matching lbl (listing env (n - 1)) = []" by (simp add: b3_def)
      qed
    next
      case False
      with bounds last show ?thesis by auto
    qed
    have c4: "sleeps tr1 = sleeps tr @
            replicate (if label_matching lbl (listing env (n - 1)) = [] then n - 1 - loop
                       else n - loop) 60"
    proof (cases "n = Suc loop")
      case True
      with go have "\<not> (Suc loop < 10 \<and> b3)" by auto
      with stop have "tr1 = tr3" by simp
      with r3 True show ?thesis by (simp add: b3_def)
    next
      case False
      with bounds have gt: "Suc loop < n" by simp
      with stop have "b3" by auto
      with r3 slp gt have "sleeps tr1 = (sleeps tr @ [60]) @
            replicate (if label_matching lbl (listing env (n - 1)) = [] then n - 1 - Suc loop
                       else n - Suc loop) 60" by simp
      also have "\<dots> = sleeps tr @
            replicate (Suc (if label_matching lbl (listing env (n - 1)) = [] then n - 1 - Suc loop
                       else n - Suc loop)) 60" by simp
      also have "Suc (if label_matching lbl (listing env (n - 1)) = [] then n - 1 - Suc loop
                       else n - Suc loop) =
                 (if label_matching lbl (listing env (n - 1)) = [] then n - 1 - loop
                       else n - loop)" using gt by auto
      finally show ?thesis .
    qed
    have c5: "rounds tr1 = rounds tr + (n - loop)" using rnd r3 bounds by simp
    from run step have "cleanup_loop env lbl loop b rs tr = (tr1, Inr (n, rs1))" by simp
    with True bounds c1 c2 c3 c4 c5 del r3 show ?thesis
      by (intro exI [of _ n] exI [of _ rs1] exI [of _ tr1]) auto
  qed
qed

text \<open>
  C7: \<^verbatim>\<open>cleanup\<close> lists the instances at most ten times and every sleep is one of 60
  seconds, whatever the service answers. When no call fails, it makes \<open>n\<close> rounds with
  \<open>1 \<le> n \<le> 10\<close>: every round but the last found instances of the run, a last round
  before the tenth found none (the loop stops early), and it slept once after every round
  that found instances of the run, and only then.
\<close>

theorem cleanup_polling_rounds:
  "rounds (fst (cleanup env tr lbl pgroups)) \<le> rounds tr + 10
   \<and> (\<exists>m \<le> 10. sleeps (fst (cleanup env tr lbl pgroups)) = sleeps tr @ replicate m 60)
   \<and> ((\<forall>tr c. rds_fault env tr c = None) \<longrightarrow>
        (\<exists>n. 1 \<le> n \<and> n \<le> 10
           \<and> rounds (fst (cleanup env tr lbl pgroups)) = rounds tr + n
           \<and> (\<forall>k. Suc k < n \<longrightarrow> label_matching lbl (listing env k) \<noteq> [])
           \<and> (n < 10 \<longrightarrow> label_matching lbl (listing env (n - 1)) = [])
           \<and> sleeps (fst (cleanup env tr lbl pgroups)) = sleeps tr @
               replicate (if label_matching lbl (listing env (n - 1)) = [] then n - 1 else n) 60))"
proof -
  obtain tr1 r1 where l: "cleanup_loop env lbl 0 True [] tr = (tr1, r1)"
    by (cases "cleanup_loop env lbl 0 True [] tr")
  have same: "rounds (fst (cleanup env tr lbl pgroups)) = rounds tr1
            \<and> sleeps (fst (cleanup env tr lbl pgroups)) = sleeps tr1"
    using l delete_parameter_groups_neutral [of env tr1 pgroups]
    by (auto simp: cleanup_def rounds_def sleeps_def split: sum.splits prod.splits)
  from cleanup_loop_bound [of 0 env lbl True "[]" tr] l
  have a: "rounds tr1 \<le> rounds tr + 10" and b: "\<exists>m \<le> 10. sleeps tr1 = sleeps tr @ replicate m 60"
    by simp_all
  have c: "(\<forall>tr c. rds_fault env tr c = None) \<longrightarrow>
        (\<exists>n. 1 \<le> n \<and> n \<le> 10 \<and> rounds tr1 = rounds tr + n
           \<and> (\<forall>k. Suc k < n \<longrightarrow> label_matching lbl (listing env k) \<noteq> [])
           \<and> (n < 10 \<longrightarrow> label_matching lbl (listing env (n - 1)) = [])
           \<and> sleeps tr1 = sleeps tr @
               replicate (if label_matching lbl (listing env (n - 1)) = [] then n - 1 else n) 60)"
  proof
    assume nf: "\<forall>tr c. rds_fault env tr c = None"
    from cleanup_loop_run [OF nf, of 0 lbl True "[]" tr]
    obtain n rs2 tr2 where
      run: "cleanup_loop env lbl 0 True [] tr = (tr2, Inr (n, rs2))"
      and le: "n \<le> 10"
      and rnd: "rounds tr2 = rounds tr + (n - 0)"
      and go: "(0::nat) < 10 \<and> True \<longrightarrow> 0 < n \<and> rs2 = listing env (n - 1)"
      and before: "\<forall>k. 0 \<le> k \<and> Suc k < n \<longrightarrow> label_matching lbl (listing env k) \<noteq> []"
      and lst: "0 < n \<and> n < 10 \<longrightarrow> label_matching lbl (listing env (n - 1)) = []"
      and slp: "0 < n \<longrightarrow> sleeps tr2 = sleeps tr @
            replicate (if label_matching lbl (listing env (n - 1)) = [] then n - 1 - 0
                       else n - 0) 60"
      by blast
    from run l have t: "tr2 = tr1" by simp
    from go have pos: "0 < n" by simp
    have "0 < n" "n \<le> 10" "rounds tr1 = rounds tr + n"
      "\<forall>k. Suc k < n \<longrightarrow> label_matching lbl (listing env k) \<noteq> []"
      "n < 10 \<longrightarrow> label_matching lbl (listing env (n - 1)) = []"
      "sleeps tr1 = sleeps tr @
         replicate (if label_matching lbl (listing env (n - 1)) = [] then n - 1 else n) 60"
      using pos le rnd before lst slp t by simp_all
    then show "\<exists>n. 1 \<le> n \<and> n \<le> 10 \<and> rounds tr1 = rounds tr + n
           \<and> (\<forall>k. Suc k < n \<longrightarrow> label_matching lbl (listing env k) \<noteq> [])
           \<and> (n < 10 \<longrightarrow> label_matching lbl (listing env (n - 1)) = [])
           \<and> sleeps tr1 = sleeps tr @
               replicate (if label_matching lbl (listing env (n - 1)) = [] then n - 1 else n) 60"
      by (intro exI [of _ n]) simp
  qed
  from a b c same show ?thesis by simp
qed

lemmas cleanup_eval = cleanup_def cleanup_loop.simps rds_call_def label_matching_def
  deletable_statuses_def example_rds_def example_instance_def

theorem cleanup_polling_rounds_witness:
  "(\<forall>tr c. rds_fault example_rds tr c = None)
   \<and> cleanup example_rds [] ''testing'' [''pgtesting-0''] =
       ([GetAllDbInstances None, Sleep 60, GetAllDbInstances None, Sleep 60,
         GetAllDbInstances None, DeleteParameterGroup ''pgtesting-0''], Inr ())
   \<and> (\<exists>n. 1 \<le> n \<and> n \<le> 10
           \<and> rounds (fst (cleanup example_rds [] ''testing'' [''pgtesting-0''])) = rounds [] + n
           \<and> (\<forall>k. Suc k < n \<longrightarrow> label_matching ''testing'' (listing example_rds k) \<noteq> [])
           \<and> (n < 10 \<longrightarrow> label_matching ''testing'' (listing example_rds (n - 1)) = [])
           \<and> sleeps (fst (cleanup example_rds [] ''testing'' [''pgtesting-0''])) = sleeps [] @
               replicate (if label_matching ''testing'' (listing example_rds (n - 1)) = []
                          then n - 1 else n) 60)"
proof -
  have nf: "\<forall>tr c. rds_fault example_rds tr c = None"
    by (simp add: example_rds_def)
  have ev: "cleanup example_rds [] ''testing'' [''pgtesting-0''] =
       ([GetAllDbInstances None, Sleep 60, GetAllDbInstances None, Sleep 60,
         GetAllDbInstances None, DeleteParameterGroup ''pgtesting-0''], Inr ())"
    by (simp add: cleanup_eval)
  from cleanup_polling_rounds [of example_rds "[]" "''testing''" "[''pgtesting-0'']"] nf ev
  show ?thesis by blast
qed

text \<open>
  C4 fails on the code: the test after the loop looks at all the instances of the last
  listing (\<^verbatim>\<open>rs\<close>), not at those of the run (\<^verbatim>\<open>label_rs\<close>). When the instances of the
  run are gone exactly at the tenth round and another instance exists, \<^verbatim>\<open>cleanup\<close> logs
  the timeout and deletes no parameter group, although no instance of the run is left.
\<close>

theorem cleanup_foreign_instance_blocks_groups:
  "label_matching ''testing'' (listing crowded_rds 9) = []
   \<and> snd (cleanup crowded_rds [] ''testing'' [''pgtesting-0'', ''pgtesting-1'']) = Inr ()
   \<and> rounds (fst (cleanup crowded_rds [] ''testing'' [''pgtesting-0'', ''pgtesting-1''])) = 10
   \<and> deleted_groups (fst (cleanup crowded_rds [] ''testing'' [''pgtesting-0'', ''pgtesting-1''])) = []
   \<and> last (fst (cleanup crowded_rds [] ''testing'' [''pgtesting-0'', ''pgtesting-1''])) =
       LogError ''Problem deleting RDS instances: timed out''"
  by (simp add: cleanup_eval crowded_rds_def foreign_instance_def rounds_def deleted_groups_def)

subsection \<open>perform\_test\<close>

lemma issued_append: "issued (xs @ ys) = issued xs @ issued ys"
  by (simp add: issued_def)

lemma executed_append: "executed (xs @ ys) = executed xs @ executed ys"
  by (simp add: executed_def)

lemma execute_cases:
  "execute env tr s = (case execute_fault env tr s of
      None \<Rightarrow> (tr @ [Execute s], Inr ()) | Some e \<Rightarrow> (tr @ [ExecuteFailed s], Inl e))"
  by (simp add: execute_def split: option.splits)

lemma execute_each_ok:
  "execute_each env tr ss = (tr', Inr u) \<Longrightarrow>
   issued tr' = issued tr @ ss \<and> executed tr' = executed tr @ ss"
proof (induction ss arbitrary: tr)
  case Nil
  then show ?case by simp
next
  case (Cons s ss)
  from Cons.prems have ok: "execute_fault env tr s = None"
    by (auto simp: execute_cases split: option.splits)
  with Cons.prems have "execute_each env (tr @ [Execute s]) ss = (tr', Inr u)"
    by (simp add: execute_cases)
  from Cons.IH [OF this] show ?case
    by (simp add: issued_def executed_def)
qed

lemma execute_each_any:
  "execute_each env tr ss = (tr', r) \<Longrightarrow>
   \<exists>n. executed tr' = executed tr @ take n ss"
proof (induction ss arbitrary: tr)
  case Nil
  then show ?case by simp
next
  case (Cons s ss)
  show ?case
  proof (cases "execute_fault env tr s")
    case (Some e)
    with Cons.prems have "tr' = tr @ [ExecuteFailed s]"
      by (auto simp: execute_cases)
    then have "executed tr' = executed tr @ take 0 (s # ss)" by (simp add: executed_def)
    then show ?thesis by blast
  next
    case None
    with Cons.prems have "execute_each env (tr @ [Execute s]) ss = (tr', r)"
      by (simp add: execute_cases)
    from Cons.IH [OF this] obtain n where
      "executed tr' = executed (tr @ [Execute s]) @ take n ss" by blast
    then have "executed tr' = executed tr @ take (Suc n) (s # ss)"
      by (simp add: executed_def)
    then show ?thesis by blast
  qed
qed

lemma log_summary_rows_neutral:
  "log_summary_rows env tr rows = (tr', r) \<Longrightarrow>
   issued tr' = issued tr \<and> executed tr' = executed tr"
proof (induction rows arbitrary: tr)
  case Nil
  then show ?case by simp
next
  case (Cons row rows)
  show ?case
  proof (cases "summary_line env row")
    case (Inl e)
    with Cons.prems show ?thesis by simp
  next
    case (Inr line)
    with Cons.prems have "log_summary_rows env (tr @ [LogInfo line]) rows = (tr', r)" by simp
    from Cons.IH [OF this] show ?thesis by (simp add: issued_def executed_def)
  qed
qed

lemma log_lines_neutral:
  "issued (map LogInfo ls) = [] \<and> executed (map LogInfo ls) = []"
  by (induction ls) (auto simp: issued_def executed_def)

lemma profile_queries_ok:
  "profile_queries env tr profiles i ss = (tr', Inr u) \<Longrightarrow>
   issued tr' = issued tr @
     map (\<lambda>(j, s). show_profile profiles j) (filter (\<lambda>(j, s). j \<noteq> 0) (enumerate i ss))
   \<and> executed tr' = executed tr @
     map (\<lambda>(j, s). show_profile profiles j) (filter (\<lambda>(j, s). j \<noteq> 0) (enumerate i ss))"
proof (induction ss arbitrary: tr i)
  case Nil
  then show ?case by simp
next
  case (Cons s ss)
  show ?case
  proof (cases "i = 0")
    case True
    with Cons.prems have "profile_queries env tr profiles (Suc i) ss = (tr', Inr u)" by simp
    from Cons.IH [OF this] True show ?thesis by simp
  next
    case False
    let ?q = "show_profile profiles i"
    from Cons.prems False have ok: "execute_fault env tr ?q = None"
      by (auto simp: execute_cases split: option.splits)
    let ?tr1 = "tr @ [Execute ?q]"
    obtain ls r where rep: "profile_report (value_str env) s (fetchall_rows env ?tr1) profiles = (ls, r)"
      by (cases "profile_report (value_str env) s (fetchall_rows env ?tr1) profiles")
    from Cons.prems False ok rep have r: "r = None"
      by (cases r) (auto simp: execute_cases)
    with Cons.prems False ok rep
    have "profile_queries env (?tr1 @ [Fetchall] @ map LogInfo ls) profiles (Suc i) ss = (tr', Inr u)"
      by (simp add: execute_cases)
    from Cons.IH [OF this] False log_lines_neutral [of ls] show ?thesis
      by (simp add: issued_append executed_append) (simp add: issued_def executed_def)
  qed
qed

lemma profile_queries_any:
  "profile_queries env tr profiles i ss = (tr', r) \<Longrightarrow>
   \<exists>xs. executed tr' = executed tr @ xs \<and> set xs \<subseteq> range (show_profile profiles)"
proof (induction ss arbitrary: tr i)
  case Nil
  then have "executed tr' = executed tr @ []" by simp
  then show ?case by (intro exI [of _ "[]"]) simp
next
  case (Cons s ss)
  show ?case
  proof (cases "i = 0")
    case True
    with Cons.prems have "profile_queries env tr profiles (Suc i) ss = (tr', r)" by simp
    from Cons.IH [OF this] show ?thesis .
  next
    case False
    let ?q = "show_profile profiles i"
    show ?thesis
    proof (cases "execute_fault env tr ?q")
      case (Some e)
      with Cons.prems False have "tr' = tr @ [ExecuteFailed ?q]"
        by (auto simp: execute_cases)
      then have "executed tr' = executed tr @ []" by (simp add: executed_def)
      then show ?thesis by (intro exI [of _ "[]"]) simp
    next
      case None
      let ?tr1 = "tr @ [Execute ?q]"
      obtain ls r1 where rep:
        "profile_report (value_str env) s (fetchall_rows env ?tr1) profiles = (ls, r1)"
        by (cases "profile_report (value_str env) s (fetchall_rows env ?tr1) profiles")
      show ?thesis
      proof (cases r1)
        case (Some e)
        with Cons.prems False None rep have "tr' = ?tr1 @ [Fetchall] @ map LogInfo ls"
          by (auto simp: execute_cases)
        with log_lines_neutral [of ls] have "executed tr' = executed tr @ [?q]"
          by (simp add: executed_append) (simp add: executed_def)
        then show ?thesis by (intro exI [of _ "[?q]"]) simp
      next
        case None2: None
        with Cons.prems False None rep
        have "profile_queries env (?tr1 @ [Fetchall] @ map LogInfo ls) profiles (Suc i) ss = (tr', r)"
          by (simp add: execute_cases)
        from Cons.IH [OF this] obtain xs where
          xs: "executed tr' = executed (?tr1 @ [Fetchall] @ map LogInfo ls) @ xs"
          "set xs \<subseteq> range (show_profile profiles)" by blast
        from xs(1) log_lines_neutral [of ls] have "executed tr' = executed tr @ (?q # xs)"
          by (simp add: executed_append) (simp add: executed_def)
        moreover have "set (?q # xs) \<subseteq> range (show_profile profiles)" using xs(2) by auto
        ultimately show ?thesis by blast
      qed
    qed
  qed
qed

lemma enumerate_from_one:
  "map (\<lambda>(j, s). f j) (filter (\<lambda>(j, s). j \<noteq> 0) (enumerate 0 ss)) = map f [1..<length ss]"
proof (cases ss)
  case Nil
  then show ?thesis by simp
next
  case (Cons s rest)
  have "filter (\<lambda>(j, s). j \<noteq> 0) (enumerate (Suc 0) rest) = enumerate (Suc 0) rest"
    by (rule filter_True) (auto simp: in_set_enumerate_eq)
  with Cons show ?thesis
    using enumerate_names [of f "Suc 0" rest] by simp
qed

lemma summary_header_neutral:
  "issued (summary_header db_name) = [] \<and> executed (summary_header db_name) = []"
  by (simp add: summary_header_def issued_def executed_def)

text \<open>
  C8: when \<^verbatim>\<open>perform_test\<close> completes, the statements it sent are the workload
  statements, \<^verbatim>\<open>show profiles\<close>, one \<^verbatim>\<open>show profile ... for query i\<close> for every index
  \<open>i\<close> from 1 to the last in this order (none for the first statement), and
  \<^verbatim>\<open>set profiling=0\<close>; all were executed, and the disabling statement is the last event
  before the cursor is closed.
\<close>

theorem perform_test_statements:
  assumes "perform_test_sql env sql tr profiles db_name = (tr', Inr u)"
  shows "issued tr' = issued tr @ sql @ [''show profiles''] @
           map (show_profile profiles) [1..<length sql] @ [''set profiling=0'']
       \<and> executed tr' = executed tr @ sql @ [''show profiles''] @
           map (show_profile profiles) [1..<length sql] @ [''set profiling=0'']
       \<and> (\<exists>pre. tr' = pre @ [Execute ''set profiling=0'', CloseCursor])"
proof -
  let ?tr0 = "tr @ [OpenCursor]"
  from assms obtain tr5 where body: "perform_test_body env sql ?tr0 profiles db_name = (tr5, Inr u)"
    and t: "tr' = tr5 @ [CloseCursor]"
    by (auto simp: perform_test_sql_def split: prod.splits)
  obtain tr1 r1 where e1: "execute_each env ?tr0 sql = (tr1, r1)"
    by (cases "execute_each env ?tr0 sql")
  from body e1 have r1: "r1 = Inr ()"
    by (cases r1) (auto simp: perform_test_body_def)
  from body e1 r1 have f2: "execute_fault env tr1 ''show profiles'' = None"
    by (auto simp: perform_test_body_def execute_cases split: option.splits)
  let ?tr2 = "tr1 @ [Execute ''show profiles'']"
  obtain tr3 r3 where e3:
    "log_summary_rows env (?tr2 @ summary_header db_name) (fetchall_rows env ?tr2) = (tr3, r3)"
    by (cases "log_summary_rows env (?tr2 @ summary_header db_name) (fetchall_rows env ?tr2)")
  from body e1 r1 f2 e3 have r3: "r3 = Inr ()"
    by (cases r3) (auto simp: perform_test_body_def execute_cases)
  obtain tr4 r4 where e4: "profile_queries env tr3 profiles 0 sql = (tr4, r4)"
    by (cases "profile_queries env tr3 profiles 0 sql")
  from body e1 r1 f2 e3 r3 e4 have r4: "r4 = Inr ()"
    by (cases r4) (auto simp: perform_test_body_def execute_cases)
  from body e1 r1 f2 e3 r3 e4 r4 have f5: "execute_fault env tr4 ''set profiling=0'' = None"
    by (auto simp: perform_test_body_def execute_cases split: option.splits)
  from body e1 r1 f2 e3 r3 e4 r4 f5 have t5: "tr5 = tr4 @ [Execute ''set profiling=0'']"
    by (auto simp: perform_test_body_def execute_cases)
  from e1 r1 execute_each_ok [of env ?tr0 sql tr1 "()"]
  have s1: "issued tr1 = issued tr @ sql" "executed tr1 = executed tr @ sql"
    by (simp_all add: issued_def executed_def)
  from e3 log_summary_rows_neutral [of env _ _ tr3 r3] summary_header_neutral [of db_name]
  have s3: "issued tr3 = issued tr1 @ [''show profiles'']"
    "executed tr3 = executed tr1 @ [''show profiles'']"
    by (simp_all add: issued_append executed_append) (simp_all add: issued_def executed_def)
  from e4 r4 have e4': "profile_queries env tr3 profiles 0 sql = (tr4, Inr ())" by simp
  note s4 = profile_queries_ok [OF e4', unfolded enumerate_from_one]
  have s5: "issued tr' = issued tr4 @ [''set profiling=0'']"
    "executed tr' = executed tr4 @ [''set profiling=0'']"
    unfolding t t5 by (simp_all add: issued_def executed_def)
  from t t5 have "tr' = tr4 @ [Execute ''set profiling=0'', CloseCursor]" by simp
  with s1 s3 s4 s5 show ?thesis by simp
qed

theorem perform_test_statements_witness:
  "snd (perform_test_sql example_db [''set profiling=1'', ''select 1=1'', ''select 2''] []
          [CPU_PROFILE, SOURCE_PROFILE] ''localhost'') = Inr ()
   \<and> issued (fst (perform_test_sql example_db [''set profiling=1'', ''select 1=1'', ''select 2''] []
          [CPU_PROFILE, SOURCE_PROFILE] ''localhost'')) =
       [''set profiling=1'', ''select 1=1'', ''select 2'', ''show profiles'',
        ''show profile CPU,SOURCE for query 1'', ''show profile CPU,SOURCE for query 2'',
        ''set profiling=0'']"
proof -
  let ?run = "perform_test_sql example_db [''set profiling=1'', ''select 1=1'', ''select 2''] []
          [CPU_PROFILE, SOURCE_PROFILE] ''localhost''"
  have s: "snd ?run = Inr ()"
    by (simp add: perform_test_sql_def perform_test_body_def execute_def example_db_def
        profile_report_def header_formats_def header_group_labels_def header_column_labels_def
        profile_headers_def profile_headers_table_def str_format_def profile_names
        split: prod.splits)
  then have run: "?run = (fst ?run, Inr ())" by (metis prod.collapse)
  have sp: "map (show_profile [CPU_PROFILE, SOURCE_PROFILE])
              [1..<length [''set profiling=1'', ''select 1=1'', ''select 2'']] =
            [''show profile CPU,SOURCE for query 1'', ''show profile CPU,SOURCE for query 2'']"
    by (simp add: show_profile_def profile_names str_nat.simps digit_char_def upt_rec)
  from perform_test_statements [OF run] s show ?thesis
    unfolding sp by (simp add: issued_def)
qed

lemma execute_each_prefix:
  "execute_each env tr ss = (tr', r) \<Longrightarrow>
   \<exists>n. executed tr' = executed tr @ take n ss
     \<and> (ss \<noteq> [] \<and> execute_fault env tr (hd ss) = None \<longrightarrow> 0 < n)"
proof (cases ss)
  case Nil
  assume "execute_each env tr ss = (tr', r)"
  with Nil have "executed tr' = executed tr @ take 0 ss" by simp
  with Nil show ?thesis by (intro exI [of _ 0]) simp
next
  case (Cons s rest)
  assume run: "execute_each env tr ss = (tr', r)"
  show ?thesis
  proof (cases "execute_fault env tr s")
    case (Some e)
    with run Cons have "tr' = tr @ [ExecuteFailed s]" by (auto simp: execute_cases)
    then have "executed tr' = executed tr @ take 0 ss" by (simp add: executed_def)
    with Some Cons show ?thesis by (intro exI [of _ 0]) simp
  next
    case None
    with run Cons have "execute_each env (tr @ [Execute s]) rest = (tr', r)"
      by (simp add: execute_cases)
    from execute_each_any [OF this] obtain n where
      "executed tr' = executed (tr @ [Execute s]) @ take n rest" by blast
    with Cons have "executed tr' = executed tr @ take (Suc n) ss"
      by (simp add: executed_def)
    then show ?thesis by (intro exI [of _ "Suc n"]) simp
  qed
qed

lemma not_disable:
  "''show profiles'' \<noteq> ''set profiling=0''" "show_profile profiles i \<noteq> ''set profiling=0''"
  by (simp_all add: show_profile_def)

lemma perform_test_body_error:
  assumes "perform_test_body env sql tr0 profiles db_name = (tr5, Inl e)"
  shows "\<exists>n ys. executed tr5 = executed tr0 @ take n sql @ ys
          \<and> ''set profiling=0'' \<notin> set ys
          \<and> (sql \<noteq> [] \<and> execute_fault env tr0 (hd sql) = None \<longrightarrow> 0 < n)"
proof -
  obtain tr1 r1 where e1: "execute_each env tr0 sql = (tr1, r1)"
    by (cases "execute_each env tr0 sql")
  from execute_each_prefix [OF e1] obtain n where
    n: "executed tr1 = executed tr0 @ take n sql"
       "sql \<noteq> [] \<and> execute_fault env tr0 (hd sql) = None \<longrightarrow> 0 < n" by blast
  have goal: "\<And>ys. executed tr5 = executed tr1 @ ys \<Longrightarrow> ''set profiling=0'' \<notin> set ys \<Longrightarrow> ?thesis"
    using n by (intro exI [of _ n]) auto
  show ?thesis
  proof (cases r1)
    case (Inl e1)
    with assms e1 have "tr5 = tr1" by (simp add: perform_test_body_def)
    then show ?thesis by (intro goal [of "[]"]) simp_all
  next
    case r1: (Inr u1)
    show ?thesis
    proof (cases "execute_fault env tr1 ''show profiles''")
      case (Some e2)
      with assms e1 r1 have "tr5 = tr1 @ [ExecuteFailed ''show profiles'']"
        by (simp add: perform_test_body_def execute_cases)
      then show ?thesis by (intro goal [of "[]"]) (simp_all add: executed_def)
    next
      case f2: None
      let ?tr2 = "tr1 @ [Execute ''show profiles'']"
      obtain tr3 r3 where e3:
        "log_summary_rows env (?tr2 @ summary_header db_name) (fetchall_rows env ?tr2) = (tr3, r3)"
        by (cases "log_summary_rows env (?tr2 @ summary_header db_name) (fetchall_rows env ?tr2)")
      from log_summary_rows_neutral [OF e3] summary_header_neutral [of db_name]
      have s3: "executed tr3 = executed tr1 @ [''show profiles'']"
        by (simp add: executed_append) (simp add: executed_def)
      show ?thesis
      proof (cases r3)
        case (Inl e3)
        with assms e1 r1 f2 e3 have "tr5 = tr3"
          by (simp add: perform_test_body_def execute_cases)
        with s3 show ?thesis by (intro goal [of "[''show profiles'']"]) simp_all
      next
        case r3: (Inr u3)
        obtain tr4 r4 where e4: "profile_queries env tr3 profiles 0 sql = (tr4, r4)"
          by (cases "profile_queries env tr3 profiles 0 sql")
        from profile_queries_any [OF e4] obtain xs where
          xs: "executed tr4 = executed tr3 @ xs" "set xs \<subseteq> range (show_profile profiles)"
          by blast
        have "''set profiling=0'' \<notin> set xs"
        proof
          assume "''set profiling=0'' \<in> set xs"
          with xs(2) obtain i where "''set profiling=0'' = show_profile profiles i" by blast
          with not_disable(2) [of profiles i] show False by simp
        qed
        then have nd: "''set profiling=0'' \<notin> set (''show profiles'' # xs)"
          using not_disable(1) by simp
        from xs(1) s3 have s4: "executed tr4 = executed tr1 @ ''show profiles'' # xs" by simp
        show ?thesis
        proof (cases r4)
          case (Inl e4)
          with assms e1 r1 f2 e3 r3 e4 have "tr5 = tr4"
            by (simp add: perform_test_body_def execute_cases)
          with s4 nd show ?thesis by (intro goal [of "''show profiles'' # xs"]) simp_all
        next
          case r4: (Inr u4)
          with assms e1 r1 f2 e3 r3 e4 have "tr5 = tr4 @ [ExecuteFailed ''set profiling=0'']"
            by (auto simp: perform_test_body_def execute_cases split: option.splits)
          with s4 have "executed tr5 = executed tr1 @ ''show profiles'' # xs"
            by (simp add: executed_append) (simp add: executed_def)
          with nd show ?thesis by (intro goal [of "''show profiles'' # xs"]) simp_all
        qed
      qed
    qed
  qed
qed

lemma profiling_stays:
  "''set profiling=0'' \<notin> set xs \<Longrightarrow> foldl profiling_step True xs = True"
  by (induction xs) (auto simp: profiling_step_def)

text \<open>
  C10: when \<^verbatim>\<open>perform_test\<close> ends with an exception, the cursor has been closed (it is
  the last event), the exception is the one of the \<^verbatim>\<open>try\<close> block, and
  \<^verbatim>\<open>set profiling=0\<close> has not been executed (the workload not containing it); so, when
  the first statement \<^verbatim>\<open>set profiling=1\<close> was executed, profiling is still enabled on
  the connection.
\<close>

theorem perform_test_error_keeps_profiling:
  assumes "perform_test_sql env sql tr profiles db_name = (tr', Inl e)"
  shows "last tr' = CloseCursor
       \<and> perform_test_body env sql (tr @ [OpenCursor]) profiles db_name = (butlast tr', Inl e)
       \<and> (''set profiling=0'' \<notin> set sql \<longrightarrow>
            (\<exists>xs. executed tr' = executed tr @ xs \<and> ''set profiling=0'' \<notin> set xs))
       \<and> (sql \<noteq> [] \<and> hd sql = ''set profiling=1''
            \<and> execute_fault env (tr @ [OpenCursor]) (hd sql) = None
            \<and> ''set profiling=0'' \<notin> set sql \<longrightarrow> profiling_enabled tr')"
proof -
  let ?tr0 = "tr @ [OpenCursor]"
  from assms obtain tr5 where body: "perform_test_body env sql ?tr0 profiles db_name = (tr5, Inl e)"
    and t: "tr' = tr5 @ [CloseCursor]"
    by (auto simp: perform_test_sql_def split: prod.splits)
  from perform_test_body_error [OF body] obtain n ys where
    ex: "executed tr5 = executed ?tr0 @ take n sql @ ys"
    and ys: "''set profiling=0'' \<notin> set ys"
    and pos: "sql \<noteq> [] \<and> execute_fault env ?tr0 (hd sql) = None \<longrightarrow> 0 < n"
    by blast
  from ex t have ex': "executed tr' = executed tr @ take n sql @ ys"
    by (simp add: executed_append) (simp add: executed_def)
  have a: "''set profiling=0'' \<notin> set sql \<longrightarrow>
            (\<exists>xs. executed tr' = executed tr @ xs \<and> ''set profiling=0'' \<notin> set xs)"
  proof
    assume "''set profiling=0'' \<notin> set sql"
    then have "''set profiling=0'' \<notin> set (take n sql)" by (auto dest: in_set_takeD)
    with ys ex' show "\<exists>xs. executed tr' = executed tr @ xs \<and> ''set profiling=0'' \<notin> set xs"
      by (intro exI [of _ "take n sql @ ys"]) simp
  qed
  have b: "sql \<noteq> [] \<and> hd sql = ''set profiling=1''
            \<and> execute_fault env ?tr0 (hd sql) = None
            \<and> ''set profiling=0'' \<notin> set sql \<longrightarrow> profiling_enabled tr'"
  proof
    assume h: "sql \<noteq> [] \<and> hd sql = ''set profiling=1''
            \<and> execute_fault env ?tr0 (hd sql) = None \<and> ''set profiling=0'' \<notin> set sql"
    with pos have "0 < n" by blast
    then obtain m where m: "n = Suc m" by (cases n) auto
    from h obtain rest where sql: "sql = ''set profiling=1'' # rest" by (cases sql) auto
    from h have "''set profiling=0'' \<notin> set (take n sql)" by (auto dest: in_set_takeD)
    with sql m have nr: "''set profiling=0'' \<notin> set (take m rest)" by simp
    from ex' sql m have "executed tr' = executed tr @ ''set profiling=1'' # (take m rest @ ys)"
      by simp
    then have "profiling_enabled tr' = foldl profiling_step True (take m rest @ ys)"
      by (simp add: profiling_enabled_def profiling_step_def)
    with nr ys show "profiling_enabled tr'" by (simp add: profiling_stays)
  qed
  from t body a b show ?thesis by simp
qed

theorem perform_test_error_keeps_profiling_witness:
  "perform_test failing_db [] PROFILES ''localhost'' =
     ([OpenCursor, Execute ''set profiling=1'', ExecuteFailed ''select 1=1'', CloseCursor],
      Inl (MySQLError 1064 ''syntax''))
   \<and> test_sql \<noteq> [] \<and> hd test_sql = ''set profiling=1''
   \<and> execute_fault failing_db ([] @ [OpenCursor]) (hd test_sql) = None
   \<and> ''set profiling=0'' \<notin> set test_sql
   \<and> profiling_enabled [OpenCursor, Execute ''set profiling=1'', ExecuteFailed ''select 1=1'',
                         CloseCursor]"
proof -
  have run: "perform_test_sql failing_db test_sql [] PROFILES ''localhost'' =
     ([OpenCursor, Execute ''set profiling=1'', ExecuteFailed ''select 1=1'', CloseCursor],
      Inl (MySQLError 1064 ''syntax''))"
    by (simp add: perform_test_sql_def perform_test_body_def execute_def failing_db_def
        example_db_def test_sql_def)
  have h: "test_sql \<noteq> [] \<and> hd test_sql = ''set profiling=1''
     \<and> execute_fault failing_db ([] @ [OpenCursor]) (hd test_sql) = None
     \<and> ''set profiling=0'' \<notin> set test_sql"
    by (simp add: test_sql_def failing_db_def example_db_def)
  from perform_test_error_keeps_profiling [OF run] h
  have "profiling_enabled [OpenCursor, Execute ''set profiling=1'', ExecuteFailed ''select 1=1'',
                         CloseCursor]" by blast
  with run h show ?thesis
    unfolding perform_test_def by blast
qed

subsection \<open>The wait for the instance\<close>

lemma wait_available_status:
  assumes "wait_available env k tr inst = Some y"
  shows "\<forall>tr1 i. y = (tr1, Inr i) \<longrightarrow> status i = ''available''"
  by (rule wait_available.raw_induct
        [where P = "\<lambda>env k tr inst y. \<forall>tr1 i. y = (tr1, Inr i) \<longrightarrow> status i = ''available''",
         OF _ assms])
     (auto split: if_splits sum.splits)

lemma wait_available_never:
  assumes "wait_available env k tr inst = Some y"
  shows "(\<forall>j. \<exists>i. refresh env j = Inr i \<and> status i \<noteq> ''available'') \<longrightarrow>
         status inst \<noteq> ''available'' \<longrightarrow> False"
proof (rule wait_available.raw_induct
        [where P = "\<lambda>env k tr inst y. (\<forall>j. \<exists>i. refresh env j = Inr i \<and> status i \<noteq> ''available'') \<longrightarrow>
                      status inst \<noteq> ''available'' \<longrightarrow> False",
         OF _ assms])
  fix w :: "rds_env \<Rightarrow> nat \<Rightarrow> event list \<Rightarrow> dbinstance \<Rightarrow> (dbinstance result) option"
    and env :: rds_env and k :: nat and tr :: "event list" and inst :: dbinstance
    and y :: "dbinstance result"
  assume IH: "\<And>env1 k1 tr1 inst1 y1. w env1 k1 tr1 inst1 = Some y1 \<Longrightarrow>
                (\<forall>j. \<exists>i. refresh env1 j = Inr i \<and> status i \<noteq> ''available'') \<longrightarrow>
                status inst1 \<noteq> ''available'' \<longrightarrow> False"
    and body: "(if status inst \<noteq> ''available''
                then case refresh env k of
                       Inl e \<Rightarrow> Some (tr @ [Sleep 30, UpdateInstance], Inl e)
                     | Inr inst1 \<Rightarrow> w env (Suc k) (tr @ [Sleep 30, UpdateInstance]) inst1
                else Some (tr, Inr inst)) = Some y"
  show "(\<forall>j. \<exists>i. refresh env j = Inr i \<and> status i \<noteq> ''available'') \<longrightarrow>
        status inst \<noteq> ''available'' \<longrightarrow> False"
  proof (intro impI)
    assume all: "\<forall>j. \<exists>i. refresh env j = Inr i \<and> status i \<noteq> ''available''"
      and st: "status inst \<noteq> ''available''"
    from all obtain i where i: "refresh env k = Inr i" "status i \<noteq> ''available''" by blast
    with body st have "w env (Suc k) (tr @ [Sleep 30, UpdateInstance]) i = Some y" by simp
    from IH [OF this] all i show False by blast
  qed
qed

lemma polls_Suc: "tr @ [Sleep 30, UpdateInstance] @ polls n = tr @ polls (Suc n)"
  by (simp add: polls_def)

lemma wait_available_reaches:
  "status inst \<noteq> ''available'' \<Longrightarrow>
   \<forall>j<m. \<exists>i. refresh env (k + j) = Inr i \<and> status i \<noteq> ''available'' \<Longrightarrow>
   refresh env (k + m) = Inr inst1 \<Longrightarrow> status inst1 = ''available'' \<Longrightarrow>
   wait_available env k tr inst = Some (tr @ polls (Suc m), Inr inst1)"
proof (induction m arbitrary: k tr inst)
  case 0
  then have "wait_available env k tr inst =
             wait_available env (Suc k) (tr @ [Sleep 30, UpdateInstance]) inst1"
    by (subst wait_available.simps) simp
  also have "\<dots> = Some (tr @ [Sleep 30, UpdateInstance], Inr inst1)"
    using 0 by (subst wait_available.simps) simp
  finally show ?case by (simp add: polls_def)
next
  case (Suc m)
  from Suc.prems(2) obtain i0 where i0: "refresh env k = Inr i0" "status i0 \<noteq> ''available''"
    by (metis add.right_neutral zero_less_Suc)
  have rest: "\<forall>j<m. \<exists>i. refresh env (Suc k + j) = Inr i \<and> status i \<noteq> ''available''"
  proof (intro allI impI)
    fix j assume "j < m"
    then have "Suc j < Suc m" by simp
    with Suc.prems(2) have "\<exists>i. refresh env (k + Suc j) = Inr i \<and> status i \<noteq> ''available''"
      by blast
    then show "\<exists>i. refresh env (Suc k + j) = Inr i \<and> status i \<noteq> ''available''" by simp
  qed
  from Suc.prems(3) have last: "refresh env (Suc k + m) = Inr inst1" by simp
  have "wait_available env k tr inst =
        wait_available env (Suc k) (tr @ [Sleep 30, UpdateInstance]) i0"
    using Suc.prems(1) i0 by (subst wait_available.simps) simp
  also have "\<dots> = Some ((tr @ [Sleep 30, UpdateInstance]) @ polls (Suc m), Inr inst1)"
    by (rule Suc.IH [OF i0(2) rest last Suc.prems(4)])
  finally show ?case using polls_Suc [of tr "Suc m"] by simp
qed

lemma bootstrap_instance:
  "bootstrap denv tr ident inst = (tr1, Inr inst1) \<Longrightarrow> inst1 = inst"
  by (auto simp: bootstrap_def split: option.splits prod.splits sum.splits)

lemma create_db_after_create:
  assumes "rds_fault renv (tr @ [LogInfo (creating_message lbl cls pg)])
             (CreateDbInstance (instance_name lbl number pg) cls pg) = None"
    and "tr0 = tr @ [LogInfo (creating_message lbl cls pg),
                     CreateDbInstance (instance_name lbl number pg) cls pg,
                     Sleep 30, UpdateInstance]"
  shows "create_db renv denv tr number lbl cls pg =
         (case refresh renv 0 of
            Inl e \<Rightarrow> Some (tr0, Inl e)
          | Inr inst0 \<Rightarrow>
              (case wait_available renv 1 tr0 inst0 of
                 None \<Rightarrow> None
               | Some (tr2, Inl e) \<Rightarrow> Some (tr2, Inl e)
               | Some (tr2, Inr inst) \<Rightarrow>
                   Some (bootstrap denv tr2 (instance_name lbl number pg) inst)))"
  using assms
  by (auto simp: create_db_def rds_call_def split: sum.splits option.splits prod.splits)

text \<open>
  C9. The readiness wait of \<^verbatim>\<open>create_db\<close>.
  (1) A handle that \<^verbatim>\<open>create_db\<close> returns was last seen with the status \<open>available\<close>.
  (2) There is no bound on the number of refreshes: for every \<open>n\<close>, when the instance
  creation succeeds, the refreshes number 0 to \<open>n - 1\<close> show a status other than
  \<open>available\<close> and refresh number \<open>n\<close> shows \<open>available\<close>, then \<^verbatim>\<open>create_db\<close> does
  \<open>n + 1\<close> times a sleep of 30 seconds and a refresh, and only then connects and
  bootstraps, with the instance of that last refresh.
  (3) When no refresh ever shows \<open>available\<close>, \<^verbatim>\<open>create_db\<close> never returns, and so never
  connects.
\<close>

theorem create_db_readiness_wait:
  "(create_db renv denv tr number lbl cls pg = Some (tr1, Inr inst) \<longrightarrow>
      status inst = ''available'') \<and>
   (rds_fault renv (tr @ [LogInfo (creating_message lbl cls pg)])
      (CreateDbInstance (instance_name lbl number pg) cls pg) = None \<and>
    (\<forall>j<n. \<exists>i. refresh renv j = Inr i \<and> status i \<noteq> ''available'') \<and>
    refresh renv n = Inr ready \<and> status ready = ''available'' \<longrightarrow>
      create_db renv denv tr number lbl cls pg =
      Some (bootstrap denv
              (tr @ [LogInfo (creating_message lbl cls pg),
                     CreateDbInstance (instance_name lbl number pg) cls pg] @ polls (Suc n))
              (instance_name lbl number pg) ready)) \<and>
   (rds_fault renv (tr @ [LogInfo (creating_message lbl cls pg)])
      (CreateDbInstance (instance_name lbl number pg) cls pg) = None \<and>
    (\<forall>j. \<exists>i. refresh renv j = Inr i \<and> status i \<noteq> ''available'') \<longrightarrow>
      create_db renv denv tr number lbl cls pg = None)"
proof -
  let ?ident = "instance_name lbl number pg"
  define tr0 where "tr0 = tr @ [LogInfo (creating_message lbl cls pg),
                                CreateDbInstance ?ident cls pg, Sleep 30, UpdateInstance]"
  {
    assume run: "create_db renv denv tr number lbl cls pg = Some (tr1, Inr inst)"
    then obtain tr2 inst0 where
      w: "wait_available renv 1 (fst (rds_call renv (tr @ [LogInfo (creating_message lbl cls pg)])
                                   (CreateDbInstance ?ident cls pg)) @ [Sleep 30, UpdateInstance])
            inst0 = Some (tr2, Inr inst)"
      and b: "bootstrap denv tr2 ?ident inst = (tr1, Inr inst)"
      by (auto simp: create_db_def split: prod.splits sum.splits option.splits
               dest: bootstrap_instance)
    from wait_available_status [OF w] have "status inst = ''available''" by simp
  }
  note first = this
  {
    assume h: "rds_fault renv (tr @ [LogInfo (creating_message lbl cls pg)])
                 (CreateDbInstance ?ident cls pg) = None \<and>
               (\<forall>j<n. \<exists>i. refresh renv j = Inr i \<and> status i \<noteq> ''available'') \<and>
               refresh renv n = Inr ready \<and> status ready = ''available''"
    then have nf: "rds_fault renv (tr @ [LogInfo (creating_message lbl cls pg)])
                     (CreateDbInstance ?ident cls pg) = None"
      and before: "\<forall>j<n. \<exists>i. refresh renv j = Inr i \<and> status i \<noteq> ''available''"
      and at: "refresh renv n = Inr ready" and ok: "status ready = ''available''"
      by blast+
    have "create_db renv denv tr number lbl cls pg =
          Some (bootstrap denv (tr @ [LogInfo (creating_message lbl cls pg), CreateDbInstance ?ident cls pg] @ polls (Suc n)) ?ident ready)"
    proof (cases n)
      case 0
      with at have r0: "refresh renv 0 = Inr ready" by simp
      have "wait_available renv 1 tr0 ready = Some (tr0, Inr ready)"
        using ok by (subst wait_available.simps) simp
      moreover have "tr0 = tr @ [LogInfo (creating_message lbl cls pg), CreateDbInstance ?ident cls pg] @ polls (Suc n)"
        using 0 by (simp add: polls_def tr0_def)
      ultimately show ?thesis using r0
        by (simp add: create_db_after_create [OF nf tr0_def])
    next
      case (Suc m)
      with before obtain i0 where i0: "refresh renv 0 = Inr i0" "status i0 \<noteq> ''available''"
        by blast
      have rest: "\<forall>j<m. \<exists>i. refresh renv (1 + j) = Inr i \<and> status i \<noteq> ''available''"
      proof (intro allI impI)
        fix j assume "j < m"
        with Suc have "Suc j < n" by simp
        with before have "\<exists>i. refresh renv (Suc j) = Inr i \<and> status i \<noteq> ''available''"
          by blast
        then show "\<exists>i. refresh renv (1 + j) = Inr i \<and> status i \<noteq> ''available''" by simp
      qed
      from at Suc have last: "refresh renv (1 + m) = Inr ready" by simp
      have "wait_available renv 1 tr0 i0 = Some (tr0 @ polls (Suc m), Inr ready)"
        by (rule wait_available_reaches [OF i0(2) rest last ok])
      moreover have "tr0 @ polls (Suc m) = tr @ [LogInfo (creating_message lbl cls pg), CreateDbInstance ?ident cls pg] @ polls (Suc n)"
        using Suc by (simp add: polls_def tr0_def)
      ultimately show ?thesis using i0
        by (simp add: create_db_after_create [OF nf tr0_def])
    qed
  }
  note second = this
  {
    assume h: "rds_fault renv (tr @ [LogInfo (creating_message lbl cls pg)])
                 (CreateDbInstance ?ident cls pg) = None \<and>
               (\<forall>j. \<exists>i. refresh renv j = Inr i \<and> status i \<noteq> ''available'')"
    then have nf: "rds_fault renv (tr @ [LogInfo (creating_message lbl cls pg)])
                     (CreateDbInstance ?ident cls pg) = None"
      and never: "\<forall>j. \<exists>i. refresh renv j = Inr i \<and> status i \<noteq> ''available''"
      by blast+
    from never obtain i0 where i0: "refresh renv 0 = Inr i0" "status i0 \<noteq> ''available''"
      by blast
    have "wait_available renv 1 tr0 i0 = None"
    proof (cases "wait_available renv 1 tr0 i0")
      case None
      then show ?thesis .
    next
      case (Some y)
      from wait_available_never [OF this] never i0 show ?thesis by blast
    qed
    with i0 have "create_db renv denv tr number lbl cls pg = None"
      by (simp add: create_db_after_create [OF nf tr0_def])
  }
  note third = this
  from first second third show ?thesis by blast
qed

lemma example_bootstrap:
  "bootstrap example_db
     ([] @ [LogInfo (creating_message ''testing'' ''db.t1.micro'' ''pgtesting-0''),
            CreateDbInstance (instance_name ''testing'' 0 ''pgtesting-0'') ''db.t1.micro''
              ''pgtesting-0''] @ polls (Suc 2))
     (instance_name ''testing'' 0 ''pgtesting-0'') (example_instance ''available'') =
   (example_create_db_trace, Inr (example_instance ''available''))"
  by (simp add: bootstrap_def connect_def execute_def example_db_def example_instance_def
      bootstrap_sql_def polls_def replicate_numeral instance_name_def str_nat.simps
      digit_char_def example_create_db_trace_def DEFAULT_DATABASE_def DEFAULT_USER_def DEFAULT_PASSWD_def)

theorem create_db_readiness_wait_witness:
  "create_db example_rds example_db [] 0 ''testing'' ''db.t1.micro'' ''pgtesting-0'' =
     Some (example_create_db_trace, Inr (example_instance ''available''))
   \<and> sleeps example_create_db_trace = [30, 30, 30]
   \<and> status (example_instance ''available'') = ''available''
   \<and> create_db stuck_rds example_db [] 0 ''testing'' ''db.t1.micro'' ''pgtesting-0'' = None"
proof -
  let ?ident = "instance_name ''testing'' 0 ''pgtesting-0''"
  let ?msg = "creating_message ''testing'' ''db.t1.micro'' ''pgtesting-0''"
  have h2: "rds_fault example_rds ([] @ [LogInfo ?msg])
              (CreateDbInstance ?ident ''db.t1.micro'' ''pgtesting-0'') = None \<and>
            (\<forall>j<2. \<exists>i. refresh example_rds j = Inr i \<and> status i \<noteq> ''available'') \<and>
            refresh example_rds 2 = Inr (example_instance ''available'') \<and>
            status (example_instance ''available'') = ''available''"
    by (simp add: example_rds_def example_instance_def)
  have h3: "rds_fault stuck_rds ([] @ [LogInfo ?msg])
              (CreateDbInstance ?ident ''db.t1.micro'' ''pgtesting-0'') = None \<and>
            (\<forall>j. \<exists>i. refresh stuck_rds j = Inr i \<and> status i \<noteq> ''available'')"
    by (simp add: stuck_rds_def example_rds_def example_instance_def)
  note t2 = create_db_readiness_wait
    [where renv = example_rds and denv = example_db and tr = "[]" and number = 0
       and lbl = "''testing''" and cls = "''db.t1.micro''" and pg = "''pgtesting-0''"
       and n = 2 and ready = "example_instance ''available''"
       and ?tr1.0 = example_create_db_trace and inst = "example_instance ''available''"]
  note t3 = create_db_readiness_wait
    [where renv = stuck_rds and denv = example_db and tr = "[]" and number = 0
       and lbl = "''testing''" and cls = "''db.t1.micro''" and pg = "''pgtesting-0''"]
  from t2 h2 have run: "create_db example_rds example_db [] 0 ''testing'' ''db.t1.micro''
      ''pgtesting-0'' = Some (example_create_db_trace, Inr (example_instance ''available''))"
    unfolding example_bootstrap by blast
  with t2 have st: "status (example_instance ''available'') = ''available''" by blast
  from t3 h3 have stuck:
    "create_db stuck_rds example_db [] 0 ''testing'' ''db.t1.micro'' ''pgtesting-0'' = None"
    by blast
  have sl: "sleeps example_create_db_trace = [30, 30, 30]"
    by (simp add: sleeps_def example_create_db_trace_def)
  from run sl st stuck show ?thesis by blast
qed

subsection \<open>Connections and cursors\<close>





















end
